theory Spec2Isabelle
  imports Complex_Main
begin

section \<open>Data model of the ceremony control plane\<close>

text \<open>
  The documents of the Store, as the cloud functions read and write them. A timestamp or a
  timing (milliseconds) is a finite JavaScript number, modelled by its rational value; the
  result of an arithmetic operation on such numbers is the exact result rounded to
  binary64, and the rounding is written out wherever the source computes (see
  \<open>roundToDouble\<close> below). The two contribution counters are naturals. Strings are
  \<open>string\<close>, and the empty string is the falsy value the source tests with \<open>!x\<close>.
\<close>

text \<open>
  Modelled from the spec: the members of the enums \<open>ParticipantStatus\<close>,
  \<open>ParticipantContributionStep\<close> and \<open>CeremonyState\<close> and the constants
  \<open>finalContributionIndex\<close> and \<open>firstZkeyIndex\<close>, which the sources import from modules
  that are not among them. The spec lists the statuses and steps, names the literal token
  \<open>final\<close> and gives the genesis index \<open>00000\<close>. The coordinator mixes the enum values with
  the empty string (\<open>let newParticipantStatus: string = ""\<close>), so they are strings here,
  each member standing for its own name.
\<close>

abbreviation WAITING :: string where "WAITING \<equiv> ''WAITING''"
abbreviation READY :: string where "READY \<equiv> ''READY''"
abbreviation CONTRIBUTING :: string where "CONTRIBUTING \<equiv> ''CONTRIBUTING''"
abbreviation CONTRIBUTED :: string where "CONTRIBUTED \<equiv> ''CONTRIBUTED''"
abbreviation DONE :: string where "DONE \<equiv> ''DONE''"
abbreviation FINALIZING :: string where "FINALIZING \<equiv> ''FINALIZING''"
abbreviation TIMEDOUT :: string where "TIMEDOUT \<equiv> ''TIMEDOUT''"

abbreviation DOWNLOADING :: string where "DOWNLOADING \<equiv> ''DOWNLOADING''"
abbreviation COMPUTING :: string where "COMPUTING \<equiv> ''COMPUTING''"
abbreviation UPLOADING :: string where "UPLOADING \<equiv> ''UPLOADING''"
abbreviation VERIFYING :: string where "VERIFYING \<equiv> ''VERIFYING''"
abbreviation COMPLETED :: string where "COMPLETED \<equiv> ''COMPLETED''"

abbreviation OPENED :: string where "OPENED \<equiv> ''OPENED''"
abbreviation CLOSED :: string where "CLOSED \<equiv> ''CLOSED''"

abbreviation finalContributionIndex :: string where "finalContributionIndex \<equiv> ''final''"
abbreviation firstZkeyIndex :: string where "firstZkeyIndex \<equiv> ''00000''"

record Contribution =
  doc :: string
  computationTime :: rat
  hash :: string

record Participant =
  status :: string
  contributionStep :: string
  contributionProgress :: int
  contributions :: "Contribution list"
  contributionStartedAt :: rat
  verificationStartedAt :: rat
  lastUpdated :: rat

record WaitingQueue =
  contributors :: "string list"
  currentContributor :: string
  completedContributions :: nat
  failedContributions :: nat

record AvgTimings =
  contributionComputation :: rat
  fullContribution :: rat
  verifyCloudFunction :: rat

record Circuit =
  sequencePosition :: int
  prefix :: string
  waitingQueue :: WaitingQueue
  avgTimings :: AvgTimings
  instanceId :: string
  circuitLastUpdated :: rat

record Ceremony =
  state :: string

record ContributionFiles =
  transcriptFilename :: string
  lastZkeyFilename :: string
  transcriptStoragePath :: string
  lastZkeyStoragePath :: string
  transcriptBlake2bHash :: string

record VerificationSoftware =
  softwareName :: string
  softwareVersion :: string
  softwareCommitHash :: string

record ContributionDoc =
  participantId :: string
  contributionComputationTime :: "rat option"
  verificationComputationTime :: rat
  zkeyIndex :: string
  files :: "ContributionFiles option"
  verificationSoftware :: VerificationSoftware
  valid :: bool
  docLastUpdated :: rat

text \<open>
  A document reference is the pair of the ceremony id and the document id under it
  (\<open>ceremonies/{ceremonyId}/participants/{id}\<close>, \<open>ceremonies/{ceremonyId}/circuits/{id}\<close>).
  A snapshot is a reference with the data read at that moment.
\<close>

type_synonym DocRef = "string \<times> string"

record Store =
  ceremonies :: "string \<rightharpoonup> Ceremony"
  circuits :: "(DocRef \<times> Circuit) list"
  participants :: "DocRef \<rightharpoonup> Participant"
  contributionDocs :: "(DocRef \<times> ContributionDoc) list"

datatype WorkerCall = StartWorker | ProbeWorker | RunCommand | FetchOutput | StopWorker

datatype Error =
    SE_AUTH_NO_CURRENT_AUTH_USER
  | CM_MISSING_OR_WRONG_INPUT_DATA
  | CM_WRONG_CONFIGURATION
  | CM_INEXISTENT_DOCUMENT_DATA
  | CM_INVALID_CEREMONY_FOR_PARTICIPANT
  | CM_NO_CIRCUIT_FOR_GIVEN_SEQUENCE_POSITION
  | SE_VERIFICATION_NO_PARTICIPANT_CONTRIBUTION_DATA
  | WorkerFailure WorkerCall
  | BatchUpdateOfMissingDocument

section \<open>Batches of writes\<close>

text \<open>
  \<open>firestore.batch()\<close> collects writes and \<open>batch.commit()\<close> applies all of them or none.
  \<open>batch.update(ref, fields)\<close> overwrites the named fields of an existing document and
  makes the commit fail when the document does not exist. The three shapes of write the
  handlers use: a participant update (status, step and start time are optional fields,
  \<open>lastUpdated\<close> is always written), a circuit update (the waiting queue is always written,
  the average timings only by the verifier), and the creation of a contribution document.
\<close>

datatype Write =
    UpdateParticipant DocRef "string option" "string option" "rat option" rat
  | UpdateCircuit DocRef "AvgTimings option" WaitingQueue rat
  | CreateContribution DocRef ContributionDoc

fun apply_write :: "Store \<Rightarrow> Write \<Rightarrow> Error + Store" where
  "apply_write st (UpdateParticipant r newStatus newStep newStartedAt t) =
     (case participants st r of
        None \<Rightarrow> Inl BatchUpdateOfMissingDocument
      | Some p \<Rightarrow>
          Inr (st\<lparr>participants := (participants st)(r \<mapsto>
                 p\<lparr>status := (case newStatus of None \<Rightarrow> status p | Some s \<Rightarrow> s),
                   contributionStep := (case newStep of None \<Rightarrow> contributionStep p | Some s \<Rightarrow> s),
                   contributionStartedAt :=
                     (case newStartedAt of None \<Rightarrow> contributionStartedAt p | Some s \<Rightarrow> s),
                   lastUpdated := t\<rparr>)\<rparr>))"
| "apply_write st (UpdateCircuit r newAvg newQueue t) =
     (if r \<in> fst ` set (circuits st) then
        Inr (st\<lparr>circuits :=
               map (\<lambda>(r', c). if r' = r
                      then (r', c\<lparr>avgTimings := (case newAvg of None \<Rightarrow> avgTimings c | Some a \<Rightarrow> a),
                                 waitingQueue := newQueue,
                                 circuitLastUpdated := t\<rparr>)
                      else (r', c)) (circuits st)\<rparr>)
      else Inl BatchUpdateOfMissingDocument)"
| "apply_write st (CreateContribution r d) =
     Inr (st\<lparr>contributionDocs := contributionDocs st @ [(r, d)]\<rparr>)"

fun apply_writes :: "Store \<Rightarrow> Write list \<Rightarrow> Error + Store" where
  "apply_writes st [] = Inr st"
| "apply_writes st (w # ws) =
     (case apply_write st w of Inl e \<Rightarrow> Inl e | Inr st' \<Rightarrow> apply_writes st' ws)"

text \<open>The commit is atomic: on an error the caller keeps the Store it had.\<close>

definition commit :: "Store \<Rightarrow> Write list \<Rightarrow> Error + Store" where
  "commit st batch = apply_writes st batch"

section \<open>Queue coordinator\<close>

text \<open>
  \<open>coordinate\<close> (part_002, lines 67-201). The snapshots are pairs of a reference and the
  data; \<open>participant.id\<close> is the second component of the reference. \<open>now\<close> stands for
  every reading of \<open>getCurrentServerTimestampInMillis()\<close> made during the invocation.
  \<open>newContributors\<close> is the list after the \<open>push\<close> or the \<open>shift\<close> (\<open>shift\<close> on an empty
  array leaves it empty, as \<open>tl\<close> does). The definition builds the batch; the last
  statement of the source, \<open>batch.commit()\<close>, is \<open>commit\<close> applied to it.
\<close>

definition truthy :: "string option \<Rightarrow> bool" where
  "truthy s = (case s of None \<Rightarrow> False | Some x \<Rightarrow> x \<noteq> [])"

definition coordinate ::
  "DocRef \<times> Participant \<Rightarrow> DocRef \<times> Circuit \<Rightarrow> bool \<Rightarrow> string option \<Rightarrow> rat \<Rightarrow> Write list" where
  "coordinate participant circuit isSingleParticipantCoordination ceremonyId now =
    (let participant_id = snd (fst participant);
         pstatus = status (snd participant);
         pstep = contributionStep (snd participant);
         wq = waitingQueue (snd circuit);
         contribs = contributors wq;
         current = currentContributor wq;
         noCurrentContributor = (current = []);
         noContributorsInWaitingQueue = (contribs = []);
         emptyWaitingQueue = (noCurrentContributor \<and> noContributorsInWaitingQueue);
         participantIsNotCurrentContributor = (current \<noteq> participant_id);
         participantIsCurrentContributor = (current = participant_id);
         participantIsReady = (pstatus = READY);
         participantResumingAfterTimeoutExpiration =
           (participantIsCurrentContributor \<and> participantIsReady);
         participantCompletedOneOrAllContributions =
           ((pstatus = CONTRIBUTED \<or> pstatus = DONE) \<and> pstep = COMPLETED)
     in
       if isSingleParticipantCoordination then
         (let (newCurrentContributorId, newParticipantStatus, newContributionStep, newContributors) =
                (if emptyWaitingQueue then
                   (participant_id, CONTRIBUTING, DOWNLOADING, contribs @ [participant_id])
                 else if participantResumingAfterTimeoutExpiration then
                   ([], CONTRIBUTING, DOWNLOADING, contribs)
                 else if participantIsNotCurrentContributor then
                   (current, WAITING, [], contribs @ [participant_id])
                 else ([], [], [], contribs))
          in (if newContributionStep \<noteq> []
              then [UpdateParticipant (fst participant) None (Some newContributionStep) None now]
              else [])
             @ [UpdateParticipant (fst participant) (Some newParticipantStatus) None
                  (Some (if newParticipantStatus = CONTRIBUTING then now else 0)) now,
                UpdateCircuit (fst circuit) None
                  (wq\<lparr>contributors := newContributors,
                      currentContributor := newCurrentContributorId\<rparr>) now])
       else if participantIsCurrentContributor \<and> participantCompletedOneOrAllContributions
               \<and> truthy ceremonyId then
         (let newContributors = tl contribs
          in (if newContributors \<noteq> []
              then [UpdateParticipant (the ceremonyId, hd newContributors)
                      (Some CONTRIBUTING) (Some DOWNLOADING) (Some now) now]
              else [])
             @ [UpdateCircuit (fst circuit) None
                  (wq\<lparr>contributors := newContributors,
                      currentContributor :=
                        (if newContributors \<noteq> [] then hd newContributors else [])\<rparr>) now])
       else
         [UpdateCircuit (fst circuit) None
            (wq\<lparr>contributors := contribs, currentContributor := []\<rparr>) now])"

text \<open>
  Modelled from the spec: \<open>getCircuitDocumentByPosition\<close> (lib/utils, not among the
  sources). The coordinator is dispatched "on circuit \<open>after.progress\<close>" (or
  \<open>before.progress\<close>), a circuit being identified within its ceremony by its
  \<open>sequencePosition\<close>; a missing document is fatal for the invocation.
\<close>

definition getCircuitDocumentByPosition ::
  "Store \<Rightarrow> string \<Rightarrow> int \<Rightarrow> Error + (DocRef \<times> Circuit)" where
  "getCircuitDocumentByPosition st ceremonyId position =
    (case filter (\<lambda>(r, c). fst r = ceremonyId \<and> sequencePosition c = position) (circuits st) of
       [] \<Rightarrow> Inl CM_NO_CIRCUIT_FOR_GIVEN_SEQUENCE_POSITION
     | x # _ \<Rightarrow> Inr x)"

text \<open>
  \<open>coordinateCeremonyParticipant\<close> (part_002, lines 222-321): the trigger on a participant
  update, given the before and after snapshots. The ceremony id is the one in the path of
  the participant's reference. The handler returns the Store after its commit; a pair that
  is no coordination event leaves the Store as it is.
\<close>

definition coordinateCeremonyParticipant ::
  "Store \<Rightarrow> DocRef \<times> Participant \<Rightarrow> DocRef \<times> Participant \<Rightarrow> rat \<Rightarrow> Error + Store" where
  "coordinateCeremonyParticipant st exParticipant changedParticipant now =
    (let ceremonyId = fst (fst exParticipant) in
     if ceremonyId = [] then Inl CM_INVALID_CEREMONY_FOR_PARTICIPANT
     else
      (let prevContributionProgress = contributionProgress (snd exParticipant);
           prevStatus = status (snd exParticipant);
           prevContributionStep = contributionStep (snd exParticipant);
           changedContributionProgress = contributionProgress (snd changedParticipant);
           changedStatus = status (snd changedParticipant);
           changedContributionStep = contributionStep (snd changedParticipant);
           participantReadyToContribute = (changedStatus = READY);
           participantReadyForFirstContribution =
             (participantReadyToContribute \<and> prevContributionProgress = 0);
           participantResumingContributionAfterTimeout =
             (participantReadyToContribute
              \<and> prevContributionProgress = changedContributionProgress);
           participantReadyForNextContribution =
             (participantReadyToContribute
              \<and> prevContributionProgress = changedContributionProgress - 1
              \<and> prevContributionProgress \<noteq> 0);
           participantCompletedEveryCircuitContribution =
             (changedStatus = DONE \<and> prevStatus \<noteq> DONE);
           participantCompletedContribution =
             (prevContributionProgress = changedContributionProgress
              \<and> prevStatus = CONTRIBUTING
              \<and> prevContributionStep = VERIFYING
              \<and> changedStatus = CONTRIBUTED
              \<and> changedContributionStep = COMPLETED)
       in
         if participantReadyForFirstContribution
            \<or> participantResumingContributionAfterTimeout
            \<or> participantReadyForNextContribution then
           (case getCircuitDocumentByPosition st ceremonyId changedContributionProgress of
              Inl e \<Rightarrow> Inl e
            | Inr circuit \<Rightarrow> commit st (coordinate changedParticipant circuit True None now))
         else if participantCompletedContribution
                 \<or> participantCompletedEveryCircuitContribution then
           (case getCircuitDocumentByPosition st ceremonyId prevContributionProgress of
              Inl e \<Rightarrow> Inl e
            | Inr circuit \<Rightarrow>
                commit st (coordinate changedParticipant circuit False (Some ceremonyId) now))
         else Inr st))"

section \<open>Contribution verifier\<close>

text \<open>
  \<open>formatZkeyIndex\<close> (part_000, lines 141-149): the decimal digits of the number, padded
  on the left with zeros up to the length of the first zkey index.
\<close>

fun toString :: "nat \<Rightarrow> string" where
  "toString n =
     (if n < 10 then [''0123456789'' ! n]
      else toString (n div 10) @ [''0123456789'' ! (n mod 10)])"

declare toString.simps [simp del]

function padZeros :: "string \<Rightarrow> string" where
  "padZeros index =
     (if length index < length firstZkeyIndex then padZeros (CHR ''0'' # index) else index)"
  by pat_completeness auto
termination
  by (relation "measure (\<lambda>index. length firstZkeyIndex - length index)") auto

declare padZeros.simps [simp del]

definition formatZkeyIndex :: "nat \<Rightarrow> string" where
  "formatZkeyIndex progress = padZeros (toString progress)"

text \<open>\<open>String.prototype.includes\<close>: the second string occurs in the first as a substring.\<close>

fun includes_str :: "string \<Rightarrow> string \<Rightarrow> bool" where
  "includes_str [] t = (t = [])"
| "includes_str (c # cs) t = (take (length t) (c # cs) = t \<or> includes_str cs t)"

text \<open>The callable request: the authentication context and the data.\<close>

record AuthToken =
  uid :: string
  tokenParticipant :: bool
  tokenCoordinator :: bool

record VerifyContributionData =
  ceremonyId :: string
  circuitId :: string
  contributorOrCoordinatorIdentifier :: string
  bucketName :: string

record Request =
  auth :: "AuthToken option"
  data :: VerifyContributionData

text \<open>
  The three \<open>CUSTOM_CONTRIBUTION_VERIFICATION_SOFTWARE_*\<close> variables of \<open>process.env\<close>;
  \<open>None\<close> is an unset variable.
\<close>

record Env =
  SOFTWARE_NAME :: "string option"
  SOFTWARE_VERSION :: "string option"
  SOFTWARE_COMMIT_HASH :: "string option"

text \<open>
  What lies outside the sources and answers during one invocation: the two storage path
  helpers of the actions package, the calls to the worker (a call that throws is \<open>False\<close>
  or \<open>None\<close>), the readings of the two timers and of the clock, and the number
  arithmetic of the platform: \<open>roundToDouble x\<close> is the binary64 number that an
  operation with exact result \<open>x\<close> returns.
\<close>

record Externals =
  getTranscriptStorageFilePath :: "string \<Rightarrow> string \<Rightarrow> string"
  getZkeyStorageFilePath :: "string \<Rightarrow> string \<Rightarrow> string"
  startEC2Instance :: bool
  checkEC2Status :: "bool option"
  runCommandOnEC2 :: "string option"
  retrieveCommandOutput :: "string option"
  stopEC2Instance :: bool
  verificationTaskTimer_ms :: rat
  verifyContributionTimer_ms :: rat
  now :: rat
  roundToDouble :: "rat \<Rightarrow> rat"

text \<open>
  What one invocation did outside the Store (the calls made to the worker, in order, and the
  objects deleted from the bucket) and its result: the error thrown, or the batch it
  commits.
\<close>

record Outcome =
  workerCalls :: "WorkerCall list"
  deletedObjects :: "(string \<times> string) list"
  result :: "Error + Write list"

text \<open>
  Lines 436-475: start the worker, probe it (a worker that is not running is only logged),
  run the commands, fetch their output, stop the worker. There is no \<open>try\<close> around these
  calls: the first one that throws ends the invocation.
\<close>

definition run_worker :: "Externals \<Rightarrow> WorkerCall list \<times> (Error + string)" where
  "run_worker ext =
    (if \<not> startEC2Instance ext then ([StartWorker], Inl (WorkerFailure StartWorker))
     else case checkEC2Status ext of
       None \<Rightarrow> ([StartWorker, ProbeWorker], Inl (WorkerFailure ProbeWorker))
     | Some running \<Rightarrow>
        (case runCommandOnEC2 ext of
           None \<Rightarrow> ([StartWorker, ProbeWorker, RunCommand], Inl (WorkerFailure RunCommand))
         | Some commandId \<Rightarrow>
            (case retrieveCommandOutput ext of
               None \<Rightarrow> ([StartWorker, ProbeWorker, RunCommand, FetchOutput],
                         Inl (WorkerFailure FetchOutput))
             | Some commandOutput \<Rightarrow>
                 if \<not> stopEC2Instance ext
                 then ([StartWorker, ProbeWorker, RunCommand, FetchOutput, StopWorker],
                       Inl (WorkerFailure StopWorker))
                 else ([StartWorker, ProbeWorker, RunCommand, FetchOutput, StopWorker],
                       Inr commandOutput))))"

text \<open>
  The finite binary64 numbers: an integer significand below \<open>2^53\<close> in absolute value,
  scaled by a power of two between \<open>2^-1074\<close> and \<open>2^971\<close>. Rounding leaves them as they
  are, which is all the scenarios below need of it.
\<close>

definition binary64 :: "rat \<Rightarrow> bool" where
  "binary64 x =
     (\<exists>m::int. \<exists>up down::nat. \<bar>m\<bar> < 2 ^ 53 \<and> up \<le> 971 \<and> down \<le> 1074
        \<and> x = of_int m * 2 ^ up / 2 ^ down)"

definition exact_on_binary64 :: "(rat \<Rightarrow> rat) \<Rightarrow> bool" where
  "exact_on_binary64 rd = (\<forall>x. binary64 x \<longrightarrow> rd x = x)"

text \<open>
  Lines 562-573, for each of the three averages:
  \<open>avg > 0 ? (avg + sample) / 2 : sample\<close>. The sum is rounded, and so is its half.
\<close>

definition rolling :: "(rat \<Rightarrow> rat) \<Rightarrow> rat \<Rightarrow> rat \<Rightarrow> rat" where
  "rolling rd avg sample = (if avg > 0 then rd (rd (avg + sample) / 2) else sample)"

definition isContributionWithoutDocRef :: "Contribution \<Rightarrow> bool" where
  "isContributionWithoutDocRef contribution =
     (hash contribution \<noteq> [] \<and> computationTime contribution \<noteq> 0 \<and> doc contribution = [])"

text \<open>
  Lines 481-596, steps (1.A.4) and (1.A.4.C): the contribution document and, when not
  finalizing, the update of the circuit. \<open>contributions.at(0)\<close> is read only after the
  filtered list was found to have one element, so the array is not empty there.
  \<open>deleteObject\<close> is recorded as the deletion it asks for. The first component of the
  result is the list of deleted objects (bucket and path).
\<close>

definition record_contribution ::
  "Env \<Rightarrow> Externals \<Rightarrow> VerifyContributionData \<Rightarrow> string \<Rightarrow> Participant \<Rightarrow> Circuit
     \<Rightarrow> bool \<Rightarrow> bool \<Rightarrow> (string \<times> string) list \<times> (Error + Write list)" where
  "record_contribution env ext d participantDocId participant circuit isFinalizing
      isContributionValid =
    (let wq = waitingQueue circuit;
         avgContributionComputationTime = contributionComputation (avgTimings circuit);
         avgFullContributionTime = fullContribution (avgTimings circuit);
         avgVerifyCloudFunctionTime = verifyCloudFunction (avgTimings circuit);
         lastZkeyIndex = formatZkeyIndex (completedContributions wq + 1);
         verificationTranscriptCompleteFilename =
           prefix circuit @ ''_'' @
           (if isFinalizing
            then contributorOrCoordinatorIdentifier d @ ''_'' @ finalContributionIndex
                   @ ''_verification_transcript.log''
            else lastZkeyIndex @ ''_'' @ contributorOrCoordinatorIdentifier d
                   @ ''_verification_transcript.log'');
         lastZkeyFilename =
           prefix circuit @ ''_''
             @ (if isFinalizing then finalContributionIndex else lastZkeyIndex) @ ''.zkey'';
         verificationTranscriptStoragePathAndFilename =
           getTranscriptStorageFilePath ext (prefix circuit) verificationTranscriptCompleteFilename;
         lastZkeyStoragePath = getZkeyStorageFilePath ext (prefix circuit) lastZkeyFilename;
         verifyCloudFunctionExecutionTime = verificationTaskTimer_ms ext;
         software = \<lparr>softwareName = the (SOFTWARE_NAME env),
                      softwareVersion = the (SOFTWARE_VERSION env),
                      softwareCommitHash = the (SOFTWARE_COMMIT_HASH env)\<rparr>;
         contributionRef = (ceremonyId d, circuitId d);
         participantContributions = filter isContributionWithoutDocRef (contributions participant);
         contributionComputationTime =
           (if isContributionValid then computationTime (hd (contributions participant)) else 0);
         verifyCloudFunctionTime =
           (if isContributionValid then verifyContributionTimer_ms ext else 0);
         fullContributionTime =
           roundToDouble ext
             (verificationStartedAt participant - contributionStartedAt participant);
         circuitUpdate =
           (if \<not> isFinalizing then
              [UpdateCircuit contributionRef
                 (Some \<lparr>contributionComputation =
                          (if isContributionValid
                           then rolling (roundToDouble ext) avgContributionComputationTime
                                  contributionComputationTime
                           else avgContributionComputationTime),
                        fullContribution =
                          (if isContributionValid
                           then rolling (roundToDouble ext) avgFullContributionTime
                                  fullContributionTime
                           else avgFullContributionTime),
                        verifyCloudFunction =
                          (if isContributionValid
                           then rolling (roundToDouble ext) avgVerifyCloudFunctionTime
                                  verifyCloudFunctionTime
                           else avgVerifyCloudFunctionTime)\<rparr>)
                 (wq\<lparr>completedContributions :=
                        (if isContributionValid then completedContributions wq + 1
                         else completedContributions wq),
                     failedContributions :=
                        (if isContributionValid then failedContributions wq
                         else failedContributions wq + 1)\<rparr>)
                 (now ext)]
            else [])
     in
       if isContributionValid then
         (if length participantContributions \<noteq> 1
          then ([], Inl SE_VERIFICATION_NO_PARTICIPANT_CONTRIBUTION_DATA)
          else
            ([], Inr (CreateContribution contributionRef
                   \<lparr>participantId = participantDocId,
                    contributionComputationTime = Some contributionComputationTime,
                    verificationComputationTime = verifyCloudFunctionExecutionTime,
                    zkeyIndex = (if isFinalizing then finalContributionIndex else lastZkeyIndex),
                    files = Some \<lparr>transcriptFilename = verificationTranscriptCompleteFilename,
                                  lastZkeyFilename = lastZkeyFilename,
                                  transcriptStoragePath =
                                    verificationTranscriptStoragePathAndFilename,
                                  lastZkeyStoragePath = lastZkeyStoragePath,
                                  transcriptBlake2bHash = []\<rparr>,
                    verificationSoftware = software,
                    valid = isContributionValid,
                    docLastUpdated = now ext\<rparr>
                 # circuitUpdate)))
       else
         ([(bucketName d, lastZkeyStoragePath)],
          Inr (CreateContribution contributionRef
                 \<lparr>participantId = participantDocId,
                  contributionComputationTime = None,
                  verificationComputationTime = verifyCloudFunctionExecutionTime,
                  zkeyIndex = (if isFinalizing then finalContributionIndex else lastZkeyIndex),
                  files = None,
                  verificationSoftware = software,
                  valid = isContributionValid,
                  docLastUpdated = now ext\<rparr>
               # circuitUpdate)))"

text \<open>
  \<open>verifycontribution\<close> (part_002, lines 346-609) up to its commit: the checks on the
  request and the environment, the three documents, the two pre-conditions, the worker and
  the batch. When the caller is neither contributing nor finalizing, the body of step (1)
  is skipped and the empty batch is committed.
\<close>

definition verifycontribution_batch :: "Store \<Rightarrow> Env \<Rightarrow> Externals \<Rightarrow> Request \<Rightarrow> Outcome" where
  "verifycontribution_batch st env ext request =
    (case auth request of
       None \<Rightarrow> \<lparr>workerCalls = [], deletedObjects = [], result = Inl SE_AUTH_NO_CURRENT_AUTH_USER\<rparr>
     | Some token \<Rightarrow>
        if \<not> tokenParticipant token \<and> \<not> tokenCoordinator token then
          \<lparr>workerCalls = [], deletedObjects = [], result = Inl SE_AUTH_NO_CURRENT_AUTH_USER\<rparr>
        else if ceremonyId (data request) = [] \<or> circuitId (data request) = []
                \<or> contributorOrCoordinatorIdentifier (data request) = []
                \<or> bucketName (data request) = [] then
          \<lparr>workerCalls = [], deletedObjects = [], result = Inl CM_MISSING_OR_WRONG_INPUT_DATA\<rparr>
        else if \<not> truthy (SOFTWARE_NAME env) \<or> \<not> truthy (SOFTWARE_VERSION env)
                \<or> \<not> truthy (SOFTWARE_COMMIT_HASH env) then
          \<lparr>workerCalls = [], deletedObjects = [], result = Inl CM_WRONG_CONFIGURATION\<rparr>
        else
          (case (ceremonies st (ceremonyId (data request)),
                 map_of (circuits st) (ceremonyId (data request), circuitId (data request)),
                 participants st (ceremonyId (data request), uid token)) of
             (Some ceremonyDoc, Some circuitDoc, Some participantDoc) \<Rightarrow>
               (let isFinalizing = (state ceremonyDoc = CLOSED \<and> tokenCoordinator token);
                    isContributing = (status participantDoc = CONTRIBUTING)
                in if isContributing \<or> isFinalizing then
                     (case run_worker ext of
                        (calls, Inl e) \<Rightarrow>
                          \<lparr>workerCalls = calls, deletedObjects = [], result = Inl e\<rparr>
                      | (calls, Inr commandOutput) \<Rightarrow>
                          (let isContributionValid = includes_str commandOutput ''ZKey Ok!'';
                               (deleted, res) =
                                 record_contribution env ext (data request) (uid token)
                                   participantDoc circuitDoc isFinalizing isContributionValid
                           in \<lparr>workerCalls = calls, deletedObjects = deleted, result = res\<rparr>))
                   else \<lparr>workerCalls = [], deletedObjects = [], result = Inr []\<rparr>)
           | _ \<Rightarrow> \<lparr>workerCalls = [], deletedObjects = [],
                   result = Inl CM_INEXISTENT_DOCUMENT_DATA\<rparr>))"

text \<open>Step (2): \<open>await batch.commit()\<close>. The Store after the invocation, or its error.\<close>

definition verifycontribution :: "Store \<Rightarrow> Env \<Rightarrow> Externals \<Rightarrow> Request \<Rightarrow> Error + Store" where
  "verifycontribution st env ext request =
    (case result (verifycontribution_batch st env ext request) of
       Inl e \<Rightarrow> Inl e
     | Inr batch \<Rightarrow> commit st batch)"

section \<open>The head invariant of the waiting queue\<close>

text \<open>
  In JavaScript \<open>contributors[0]\<close> of an empty array is \<open>undefined\<close>, which equals no
  non-empty \<open>currentContributor\<close>: an empty list with a current contributor breaks the
  invariant.
\<close>

definition head_invariant :: "WaitingQueue \<Rightarrow> bool" where
  "head_invariant wq =
     (currentContributor wq \<noteq> [] \<longrightarrow>
        (case contributors wq of [] \<Rightarrow> False | h # _ \<Rightarrow> h = currentContributor wq))"

definition store_head_invariant :: "Store \<Rightarrow> bool" where
  "store_head_invariant st = list_all (\<lambda>(r, c). head_invariant (waitingQueue c)) (circuits st)"

fun queue_write_ok :: "Write \<Rightarrow> bool" where
  "queue_write_ok (UpdateCircuit r a wq t) = head_invariant wq"
| "queue_write_ok _ = True"

section \<open>Concrete documents for the scenarios\<close>

text \<open>
  One ceremony \<open>cer\<close> with one circuit \<open>c1\<close> at sequence position 1; the stores below differ
  in the ceremony state, the circuit and the participants. The timings of the scenarios
  are integers of a few digits and their halves, which binary64 arithmetic computes
  without rounding: \<open>ex_ext\<close> answers every operation with its exact result.
\<close>

definition ex_queue :: "string list \<Rightarrow> string \<Rightarrow> WaitingQueue" where
  "ex_queue cs cur =
     \<lparr>contributors = cs, currentContributor = cur,
      completedContributions = 0, failedContributions = 0\<rparr>"

definition ex_circuit :: "WaitingQueue \<Rightarrow> rat \<Rightarrow> Circuit" where
  "ex_circuit wq avg =
     \<lparr>sequencePosition = 1, prefix = ''c1'', waitingQueue = wq,
      avgTimings = \<lparr>contributionComputation = avg, fullContribution = avg,
                    verifyCloudFunction = avg\<rparr>,
      instanceId = ''i-1'', circuitLastUpdated = 0\<rparr>"

definition ex_participant :: "string \<Rightarrow> string \<Rightarrow> int \<Rightarrow> Contribution list \<Rightarrow> rat \<Rightarrow> rat \<Rightarrow> Participant" where
  "ex_participant s step progress cs started verifying =
     \<lparr>status = s, contributionStep = step, contributionProgress = progress,
      contributions = cs, contributionStartedAt = started,
      verificationStartedAt = verifying, lastUpdated = 0\<rparr>"

definition ex_store :: "string \<Rightarrow> Circuit \<Rightarrow> (DocRef \<times> Participant) list \<Rightarrow> Store" where
  "ex_store ceremonyState c ps =
     \<lparr>ceremonies = [''cer'' \<mapsto> \<lparr>state = ceremonyState\<rparr>],
      circuits = [((''cer'', ''c1''), c)],
      participants = map_of ps,
      contributionDocs = []\<rparr>"

definition ex_env :: Env where
  "ex_env = \<lparr>SOFTWARE_NAME = Some ''snarkjs'', SOFTWARE_VERSION = Some ''0.5.0'',
             SOFTWARE_COMMIT_HASH = Some ''abc''\<rparr>"

definition ex_ext :: "bool \<Rightarrow> string option \<Rightarrow> Externals" where
  "ex_ext started output =
     \<lparr>getTranscriptStorageFilePath = (\<lambda>p f. p @ ''/transcripts/'' @ f),
      getZkeyStorageFilePath = (\<lambda>p f. p @ ''/contributions/'' @ f),
      startEC2Instance = started, checkEC2Status = Some True,
      runCommandOnEC2 = Some ''cmd-1'', retrieveCommandOutput = output,
      stopEC2Instance = True, verificationTaskTimer_ms = 0,
      verifyContributionTimer_ms = 7, now = 5, roundToDouble = (\<lambda>x. x)\<rparr>"

definition ex_request :: "string \<Rightarrow> bool \<Rightarrow> Request" where
  "ex_request user coordinator =
     \<lparr>auth = Some \<lparr>uid = user, tokenParticipant = True, tokenCoordinator = coordinator\<rparr>,
      data = \<lparr>ceremonyId = ''cer'', circuitId = ''c1'',
              contributorOrCoordinatorIdentifier = user, bucketName = ''bucket''\<rparr>\<rparr>"

definition ex_pending :: "Contribution list" where
  "ex_pending = [\<lparr>doc = [], computationTime = 40, hash = ''h1''\<rparr>]"

definition busy_store :: Store where
  "busy_store =
     ex_store OPENED (ex_circuit (ex_queue [''alice'', ''bob''] ''alice'') 0)
       [((''cer'', ''alice''), ex_participant CONTRIBUTING VERIFYING 1 ex_pending 1000 1100),
        ((''cer'', ''bob''), ex_participant WAITING [] 1 [] 0 0),
        ((''cer'', ''carol''), ex_participant READY [] 1 [] 0 0)]"


text \<open>The contribution documents a batch creates, in order.\<close>

fun createdContributions :: "Write list \<Rightarrow> ContributionDoc list" where
  "createdContributions [] = []"
| "createdContributions (CreateContribution r d # ws) = d # createdContributions ws"
| "createdContributions (w # ws) = createdContributions ws"

text \<open>
  A participant on its second circuit: the entry of the first circuit has its document
  attached, the entry of the contribution under verification has not.
\<close>

definition ex_second_circuit :: "Contribution list" where
  "ex_second_circuit =
     [\<lparr>doc = ''doc-1'', computationTime = 10, hash = ''h1''\<rparr>,
      \<lparr>doc = [], computationTime = 20, hash = ''h2''\<rparr>]"

text \<open>A closed ceremony that its coordinator is finalizing.\<close>

definition closed_store :: Store where
  "closed_store =
     ex_store CLOSED (ex_circuit (ex_queue [] []) 0)
       [((''cer'', ''coord''), ex_participant FINALIZING COMPLETED 1 ex_pending 0 0)]"

text \<open>
  Successive invocations of the verifier, each on the Store the one before left; the list
  of the Stores reached, up to the first error.
\<close>

fun verify_sequence :: "Store \<Rightarrow> Env \<Rightarrow> Externals \<Rightarrow> Request list \<Rightarrow> Store list" where
  "verify_sequence st env ext [] = []"
| "verify_sequence st env ext (request # requests) =
     (case verifycontribution st env ext request of
        Inl e \<Rightarrow> []
      | Inr st' \<Rightarrow> st' # verify_sequence st' env ext requests)"

text \<open>
  A fresh circuit (all averages 0) and three contributors whose contributions took 100,
  300 and 500 ms from start to verification.
\<close>

definition fresh_store :: Store where
  "fresh_store =
     ex_store OPENED (ex_circuit (ex_queue [] []) 0)
       [((''cer'', ''u1''), ex_participant CONTRIBUTING VERIFYING 1 ex_pending 1000 1100),
        ((''cer'', ''u2''), ex_participant CONTRIBUTING VERIFYING 1 ex_pending 2000 2300),
        ((''cer'', ''u3''), ex_participant CONTRIBUTING VERIFYING 1 ex_pending 3000 3500)]"

text \<open>A circuit whose three averages are 100 ms.\<close>

definition warm_store :: Store where
  "warm_store =
     ex_store OPENED (ex_circuit (ex_queue [''alice''] ''alice'') 100)
       [((''cer'', ''alice''), ex_participant CONTRIBUTING VERIFYING 1 ex_pending 2000 2300)]"

text \<open>A participant back to \<open>READY\<close> after a timeout, still the current contributor of its circuit.\<close>

definition resume_store :: Store where
  "resume_store =
     ex_store OPENED (ex_circuit (ex_queue [''alice'', ''bob''] ''alice'') 0)
       [((''cer'', ''alice''), ex_participant READY COMPUTING 1 [] 1000 0),
        ((''cer'', ''bob''), ex_participant WAITING [] 1 [] 0 0)]"

text \<open>
  The trigger delivered twice with the same before and after snapshots: the second
  invocation runs on the Store the first one left.
\<close>

definition reinvoke ::
  "Store \<Rightarrow> DocRef \<times> Participant \<Rightarrow> DocRef \<times> Participant \<Rightarrow> rat \<Rightarrow> Error + Store" where
  "reinvoke st exParticipant changedParticipant t =
     (case coordinateCeremonyParticipant st exParticipant changedParticipant t of
        Inl e \<Rightarrow> Inl e
      | Inr st' \<Rightarrow> coordinateCeremonyParticipant st' exParticipant changedParticipant t)"

text \<open>A participant that has just become \<open>READY\<close> for a circuit nobody is contributing to.\<close>

definition empty_queue_store :: Store where
  "empty_queue_store =
     ex_store OPENED (ex_circuit (ex_queue [] []) 0)
       [((''cer'', ''alice''), ex_participant READY [] 1 [] 0 0)]"

text \<open>
  The two conditions under which the trigger coordinates (lines 265-292 and 306): step
  (2.A), ready for a first or next contribution or resuming, and step (2.B), a
  contribution or all of them just completed.
\<close>

definition singleParticipantEvent :: "Participant \<Rightarrow> Participant \<Rightarrow> bool" where
  "singleParticipantEvent before after =
     (status after = READY
      \<and> (contributionProgress before = 0
         \<or> contributionProgress before = contributionProgress after
         \<or> (contributionProgress before = contributionProgress after - 1
            \<and> contributionProgress before \<noteq> 0)))"

definition multiParticipantEvent :: "Participant \<Rightarrow> Participant \<Rightarrow> bool" where
  "multiParticipantEvent before after =
     (\<not> singleParticipantEvent before after
      \<and> ((contributionProgress before = contributionProgress after
           \<and> status before = CONTRIBUTING \<and> contributionStep before = VERIFYING
           \<and> status after = CONTRIBUTED \<and> contributionStep after = COMPLETED)
          \<or> (status after = DONE \<and> status before \<noteq> DONE)))"

text \<open>
  Two Stores are the same up to the \<open>lastUpdated\<close> timestamps of their participants and
  circuits.
\<close>

definition forget_lastUpdated :: "Store \<Rightarrow> Store" where
  "forget_lastUpdated st =
     st\<lparr>circuits := map (\<lambda>(r, c). (r, c\<lparr>circuitLastUpdated := 0\<rparr>)) (circuits st),
        participants := (\<lambda>r. map_option (\<lambda>p. p\<lparr>lastUpdated := 0\<rparr>) (participants st r))\<rparr>"

definition same_up_to_lastUpdated :: "Store \<Rightarrow> Store \<Rightarrow> bool" where
  "same_up_to_lastUpdated st st' = (forget_lastUpdated st = forget_lastUpdated st')"

text \<open>A participant alone in the queue of its circuit, its contribution just verified.\<close>

definition solo_store :: Store where
  "solo_store =
     ex_store OPENED (ex_circuit (ex_queue [''alice''] ''alice'') 0)
       [((''cer'', ''alice''), ex_participant CONTRIBUTED COMPLETED 1 ex_pending 1000 1100)]"

section \<open>Evaluation and helper lemmas\<close>

lemmas ex_defs = ex_queue_def ex_circuit_def ex_participant_def ex_store_def ex_env_def
  ex_ext_def ex_request_def ex_pending_def busy_store_def ex_second_circuit_def closed_store_def
  fresh_store_def warm_store_def resume_store_def empty_queue_store_def solo_store_def

lemmas model_defs = coordinateCeremonyParticipant_def getCircuitDocumentByPosition_def
  coordinate_def commit_def verifycontribution_def verifycontribution_batch_def
  record_contribution_def run_worker_def rolling_def isContributionWithoutDocRef_def
  truthy_def Let_def



lemma apply_write_head_invariant:
  assumes "store_head_invariant st" and "queue_write_ok w" and "apply_write st w = Inr st'"
  shows "store_head_invariant st'"
proof (cases w)
  case (UpdateParticipant r a b c t)
  with assms show ?thesis
    by (auto simp: store_head_invariant_def split: option.splits)
next
  case (UpdateCircuit r a wq t)
  with assms show ?thesis
    by (fastforce simp: store_head_invariant_def list_all_iff split: if_splits)
next
  case (CreateContribution r d)
  with assms show ?thesis
    by (auto simp: store_head_invariant_def)
qed

lemma apply_writes_head_invariant:
  "store_head_invariant st \<Longrightarrow> list_all queue_write_ok ws \<Longrightarrow> apply_writes st ws = Inr st'
     \<Longrightarrow> store_head_invariant st'"
proof (induction ws arbitrary: st)
  case Nil
  then show ?case by simp
next
  case (Cons w ws)
  then show ?case
    by (auto split: sum.splits dest: apply_write_head_invariant)
qed

lemma coordinate_queue_write_ok:
  assumes "head_invariant (waitingQueue (snd circuit))"
  shows "list_all queue_write_ok (coordinate participant circuit single cid t)"
  using assms
  by (auto simp: coordinate_def head_invariant_def Let_def split: list.splits if_splits)


lemma record_contribution_queue_write_ok:
  assumes "head_invariant (waitingQueue circuit)"
    and "record_contribution env ext d pid participant circuit fin v = (del, Inr batch)"
  shows "list_all queue_write_ok batch"
  using assms
  by (auto simp: record_contribution_def head_invariant_def Let_def split: if_splits list.splits)

lemma verifycontribution_batch_queue_write_ok:
  assumes "store_head_invariant st"
    and "result (verifycontribution_batch st env ext request) = Inr batch"
  shows "list_all queue_write_ok batch"
proof -
  have inv: "head_invariant (waitingQueue c)" if "map_of (circuits st) k = Some c" for k c
    using assms(1) map_of_SomeD [OF that]
    by (auto simp: store_head_invariant_def list_all_iff)
  show ?thesis
    using assms(2)
    by (auto simp: verifycontribution_batch_def Let_def
             split: option.splits if_splits prod.splits sum.splits
             dest!: inv intro: record_contribution_queue_write_ok)
qed

lemma getCircuitDocumentByPosition_mem:
  assumes "getCircuitDocumentByPosition st cid pos = Inr circuit"
  shows "circuit \<in> set (circuits st)"
proof -
  from assms obtain rest where
    "filter (\<lambda>(r, c). fst r = cid \<and> sequencePosition c = pos) (circuits st) = circuit # rest"
    by (auto simp: getCircuitDocumentByPosition_def split: list.splits)
  then have "circuit \<in> set (filter (\<lambda>(r, c). fst r = cid \<and> sequencePosition c = pos) (circuits st))"
    by simp
  then show ?thesis by simp
qed

lemma commit_coordinate_head_invariant:
  assumes "store_head_invariant st" and "circuit \<in> set (circuits st)"
    and "commit st (coordinate participant circuit single cid t) = Inr st'"
  shows "store_head_invariant st'"
proof -
  from assms(1,2) have "head_invariant (waitingQueue (snd circuit))"
    by (auto simp: store_head_invariant_def list_all_iff)
  then have "list_all queue_write_ok (coordinate participant circuit single cid t)"
    by (rule coordinate_queue_write_ok)
  with assms(1,3) show ?thesis
    unfolding commit_def by (blast intro: apply_writes_head_invariant)
qed

lemma coordinateCeremonyParticipant_head_invariant:
  assumes "store_head_invariant st"
    and "coordinateCeremonyParticipant st ex changed t = Inr st'"
  shows "store_head_invariant st'"
  using assms
  by (auto simp: coordinateCeremonyParticipant_def Let_def
           split: if_splits sum.splits
           dest!: getCircuitDocumentByPosition_mem
           intro: commit_coordinate_head_invariant)

lemma verifycontribution_head_invariant:
  assumes "store_head_invariant st"
    and "verifycontribution st env ext request = Inr st'"
  shows "store_head_invariant st'"
proof -
  from assms(2) obtain batch where b: "result (verifycontribution_batch st env ext request) = Inr batch"
    and c: "apply_writes st batch = Inr st'"
    by (auto simp: verifycontribution_def commit_def split: sum.splits)
  from assms(1) b have "list_all queue_write_ok batch"
    by (rule verifycontribution_batch_queue_write_ok)
  with assms(1) c show ?thesis
    by (blast intro: apply_writes_head_invariant)
qed

lemma run_worker_output:
  assumes "run_worker ext = (calls, Inr out)"
  shows "retrieveCommandOutput ext = Some out"
  using assms by (auto simp: run_worker_def split: if_splits option.splits)


lemma map_of_update_circuit:
  assumes "map_of xs r = Some c"
  shows "map_of (map (\<lambda>(r', c). if r' = r then (r', f c) else (r', c)) xs) r = Some (f c)"
  using assms by (induction xs) (auto split: if_splits)

lemma map_of_in_keys: "map_of xs r = Some c \<Longrightarrow> r \<in> fst ` set xs"
  by (metis domI dom_map_of_conv_image_fst)

lemma commit_create_and_update:
  assumes "map_of (circuits st) r = Some c"
  shows "commit st [CreateContribution r' d, UpdateCircuit r (Some avg) wq t]
         = Inr (st\<lparr>contributionDocs := contributionDocs st @ [(r', d)],
                  circuits := map (\<lambda>(k, c). if k = r
                      then (k, c\<lparr>avgTimings := avg, waitingQueue := wq, circuitLastUpdated := t\<rparr>)
                      else (k, c)) (circuits st)\<rparr>)"
  using map_of_in_keys [OF assms] by (simp add: commit_def cong: if_cong)

lemma record_contribution_not_finalizing:
  assumes "record_contribution env ext d pid p c False v = (del, Inr batch)"
  shows "\<exists>doc. batch =
     [CreateContribution (ceremonyId d, circuitId d) doc,
      UpdateCircuit (ceremonyId d, circuitId d)
        (Some (if v then
                 \<lparr>contributionComputation =
                    rolling (roundToDouble ext) (contributionComputation (avgTimings c))
                      (computationTime (hd (contributions p))),
                  fullContribution =
                    rolling (roundToDouble ext) (fullContribution (avgTimings c))
                      (roundToDouble ext (verificationStartedAt p - contributionStartedAt p)),
                  verifyCloudFunction =
                    rolling (roundToDouble ext) (verifyCloudFunction (avgTimings c))
                      (verifyContributionTimer_ms ext)\<rparr>
               else avgTimings c))
        ((waitingQueue c)
           \<lparr>completedContributions := completedContributions (waitingQueue c) + (if v then 1 else 0),
            failedContributions := failedContributions (waitingQueue c) + (if v then 0 else 1)\<rparr>)
        (now ext)]"
  using assms
  by (auto simp: record_contribution_def Let_def split: if_splits)

lemma record_contribution_finalizing:
  assumes "record_contribution env ext d pid p c True v = (del, Inr batch)"
  shows "\<exists>doc. batch = [CreateContribution (ceremonyId d, circuitId d) doc]"
  using assms
  by (auto simp: record_contribution_def Let_def split: if_splits)

lemma apply_create_only:
  "commit st [CreateContribution r d] = Inr st' \<Longrightarrow> circuits st' = circuits st"
  by (auto simp: commit_def)


lemma verifycontribution_batch_documents:
  assumes "auth request = Some token"
    and "ceremonies st (ceremonyId (data request)) = Some ceremonyDoc"
    and "map_of (circuits st) (ceremonyId (data request), circuitId (data request))
           = Some circuitDoc"
    and "participants st (ceremonyId (data request), uid token) = Some participantDoc"
    and "result (verifycontribution_batch st env ext request) = Inr batch"
  shows "if status participantDoc = CONTRIBUTING
            \<or> (state ceremonyDoc = CLOSED \<and> tokenCoordinator token)
         then \<exists>calls out del.
                run_worker ext = (calls, Inr out)
                \<and> record_contribution env ext (data request) (uid token) participantDoc
                     circuitDoc (state ceremonyDoc = CLOSED \<and> tokenCoordinator token)
                     (includes_str out ''ZKey Ok!'') = (del, Inr batch)
         else batch = []"
  using assms
  by (auto simp: verifycontribution_batch_def Let_def
           split: option.splits if_splits prod.splits sum.splits)

lemma coordinate_resume_batch:
  assumes "currentContributor (waitingQueue (snd circuit)) = snd (fst participant)"
    and "status (snd participant) = READY"
    and "contributors (waitingQueue (snd circuit)) \<noteq> []"
  shows "coordinate participant circuit True cid t =
     [UpdateParticipant (fst participant) None (Some DOWNLOADING) None t,
      UpdateParticipant (fst participant) (Some CONTRIBUTING) None (Some t) t,
      UpdateCircuit (fst circuit) None
        ((waitingQueue (snd circuit))\<lparr>currentContributor := []\<rparr>) t]"
  using assms by (simp add: coordinate_def Let_def)

lemma coordinate_current_and_ready:
  assumes "currentContributor (waitingQueue (snd circuit)) = snd (fst participant)"
    and "status (snd participant) = READY"
  shows "\<exists>wq. coordinate participant circuit True cid t =
     [UpdateParticipant (fst participant) None (Some DOWNLOADING) None t,
      UpdateParticipant (fst participant) (Some CONTRIBUTING) None (Some t) t,
      UpdateCircuit (fst circuit) None wq t]"
  using assms by (simp add: coordinate_def Let_def)

lemma commit_single_batch:
  assumes "participants st pref = Some p" and "map_of (circuits st) cref = Some c"
  shows "commit st
     [UpdateParticipant pref None (Some step) None t,
      UpdateParticipant pref (Some s) None (Some started) t,
      UpdateCircuit cref None wq t]
   = Inr (st\<lparr>participants := (participants st)(pref \<mapsto>
                p\<lparr>status := s, contributionStep := step,
                  contributionStartedAt := started, lastUpdated := t\<rparr>),
             circuits := map (\<lambda>(k, c). if k = cref
                      then (k, c\<lparr>waitingQueue := wq, circuitLastUpdated := t\<rparr>)
                      else (k, c)) (circuits st)\<rparr>)"
  using assms map_of_in_keys [OF assms(2)] by (simp add: commit_def cong: if_cong)

lemma run_worker_failure:
  assumes "\<not> startEC2Instance ext \<or> checkEC2Status ext = None \<or> runCommandOnEC2 ext = None
           \<or> retrieveCommandOutput ext = None"
  shows "\<exists>calls call. run_worker ext = (calls, Inl (WorkerFailure call))
           \<and> call \<noteq> StopWorker \<and> StopWorker \<notin> set calls"
  using assms by (auto simp: run_worker_def split: option.splits)

lemma binary64_of_int: "\<bar>m\<bar> < 2 ^ 53 \<Longrightarrow> binary64 (of_int m)"
  unfolding binary64_def
  by (rule exI [of _ m], rule exI [of _ 0], rule exI [of _ 0]) simp

lemma binary64_half: "\<bar>m\<bar> < 2 ^ 53 \<Longrightarrow> binary64 (of_int m / 2)"
  unfolding binary64_def
  by (rule exI [of _ m], rule exI [of _ 0], rule exI [of _ 1]) simp

lemma exact_numeral:
  assumes "exact_on_binary64 rd" and "(numeral n :: int) < 2 ^ 53"
  shows "rd (numeral n) = numeral n"
proof -
  have "binary64 (of_int (numeral n))"
    using assms(2) by (intro binary64_of_int) simp
  with assms(1) show ?thesis by (simp add: exact_on_binary64_def)
qed

lemma handler_single:
  assumes "singleParticipantEvent (snd ex) (snd ch)" and "fst (fst ex) \<noteq> []"
  shows "coordinateCeremonyParticipant st ex ch t =
     (case getCircuitDocumentByPosition st (fst (fst ex)) (contributionProgress (snd ch)) of
        Inl e \<Rightarrow> Inl e
      | Inr circuit \<Rightarrow> commit st (coordinate ch circuit True None t))"
  using assms
  by (auto simp: coordinateCeremonyParticipant_def singleParticipantEvent_def Let_def)

lemma handler_multi:
  assumes "multiParticipantEvent (snd ex) (snd ch)" and "fst (fst ex) \<noteq> []"
  shows "coordinateCeremonyParticipant st ex ch t =
     (case getCircuitDocumentByPosition st (fst (fst ex)) (contributionProgress (snd ex)) of
        Inl e \<Rightarrow> Inl e
      | Inr circuit \<Rightarrow> commit st (coordinate ch circuit False (Some (fst (fst ex))) t))"
  using assms
  by (auto simp: coordinateCeremonyParticipant_def singleParticipantEvent_def
        multiParticipantEvent_def Let_def)

lemma handler_ignored:
  assumes "\<not> singleParticipantEvent (snd ex) (snd ch)"
    and "\<not> multiParticipantEvent (snd ex) (snd ch)" and "fst (fst ex) \<noteq> []"
  shows "coordinateCeremonyParticipant st ex ch t = Inr st"
  using assms
  by (auto simp: coordinateCeremonyParticipant_def singleParticipantEvent_def
        multiParticipantEvent_def Let_def)

lemma queue_update_eqD:
  "wq\<lparr>contributors := a, currentContributor := b\<rparr> = (wq :: WaitingQueue)
     \<Longrightarrow> a = contributors wq \<and> b = currentContributor wq"
  by (cases wq) simp

lemma queue_current_eqD:
  "wq\<lparr>currentContributor := b\<rparr> = (wq :: WaitingQueue) \<Longrightarrow> b = currentContributor wq"
  by (cases wq) simp

lemma queue_current_same:
  "currentContributor wq = [] \<Longrightarrow> wq\<lparr>currentContributor := []\<rparr> = (wq :: WaitingQueue)"
  by (cases wq) simp

lemma queue_contributors_eqD:
  "wq\<lparr>contributors := a\<rparr> = (wq :: WaitingQueue) \<Longrightarrow> a = contributors wq"
  by (cases wq) simp

lemma tl_neq: "xs \<noteq> [] \<Longrightarrow> tl xs \<noteq> xs"
  by (cases xs) simp_all

lemma coordinate_single_ready:
  assumes "status (snd p) = READY" and "snd (fst p) \<noteq> []"
  shows "\<exists>steps s x wq.
     coordinate p (r, c) True cid t
       = steps @ [UpdateParticipant (fst p) (Some s) None (Some x) t, UpdateCircuit r None wq t]
     \<and> (steps = [] \<or> (\<exists>step. steps = [UpdateParticipant (fst p) None (Some step) None t]))
     \<and> wq \<noteq> waitingQueue c"
  using assms
  by (auto simp: coordinate_def Let_def
           dest!: queue_update_eqD queue_current_eqD queue_contributors_eqD)

lemma coordinate_multi:
  assumes "snd (fst p) \<noteq> []"
  shows "\<exists>ps wq.
     coordinate p (r, c) False cid t = ps @ [UpdateCircuit r None wq t]
     \<and> (\<forall>w\<in>set ps. \<exists>r' a b s u. w = UpdateParticipant r' a b s u)
     \<and> (currentContributor (waitingQueue c) = [] \<longrightarrow> ps = [] \<and> wq = waitingQueue c)
     \<and> (currentContributor (waitingQueue c) \<noteq> [] \<longrightarrow> wq \<noteq> waitingQueue c)"
  using assms tl_neq [of "contributors (waitingQueue c)"]
  by (auto simp: coordinate_def Let_def queue_current_same
           dest!: queue_update_eqD queue_current_eqD)


lemma apply_write_frame:
  assumes "apply_write st w = Inr st'"
  shows "dom (participants st') = dom (participants st)
       \<and> map (\<lambda>(k, c). (k, sequencePosition c)) (circuits st')
           = map (\<lambda>(k, c). (k, sequencePosition c)) (circuits st)"
proof (cases w)
  case (UpdateParticipant r a b x u)
  with assms obtain p p' where "participants st r = Some p"
    and "st' = st\<lparr>participants := (participants st)(r \<mapsto> p')\<rparr>"
    by (auto split: option.splits)
  then show ?thesis by (simp add: insert_absorb domI)
next
  case (UpdateCircuit r a wq u)
  with assms show ?thesis by (auto split: if_splits)
next
  case (CreateContribution r d)
  with assms show ?thesis by auto
qed

lemma apply_writes_frame:
  "apply_writes st ws = Inr st' \<Longrightarrow>
     dom (participants st') = dom (participants st)
     \<and> map (\<lambda>(k, c). (k, sequencePosition c)) (circuits st')
         = map (\<lambda>(k, c). (k, sequencePosition c)) (circuits st)"
proof (induction ws arbitrary: st)
  case Nil
  then show ?case by simp
next
  case (Cons w ws)
  then obtain s where w: "apply_write st w = Inr s" and ws: "apply_writes s ws = Inr st'"
    by (auto split: sum.splits)
  from apply_write_frame [OF w] Cons.IH [OF ws] show ?case by simp
qed

lemma apply_writes_targets:
  "apply_writes st ws = Inr st' \<Longrightarrow> UpdateParticipant r a b x u \<in> set ws
     \<Longrightarrow> r \<in> dom (participants st)"
proof (induction ws arbitrary: st)
  case Nil
  then show ?case by simp
next
  case (Cons w ws)
  then obtain s where w: "apply_write st w = Inr s" and ws: "apply_writes s ws = Inr st'"
    by (auto split: sum.splits)
  show ?case
  proof (cases "w = UpdateParticipant r a b x u")
    case True
    with w show ?thesis by (auto split: option.splits)
  next
    case False
    with Cons.prems(2) have "UpdateParticipant r a b x u \<in> set ws" by simp
    from Cons.IH [OF ws this] apply_write_frame [OF w] show ?thesis by simp
  qed
qed

lemma apply_writes_append:
  "apply_writes st (xs @ ys) =
     (case apply_writes st xs of Inl e \<Rightarrow> Inl e | Inr s \<Rightarrow> apply_writes s ys)"
  by (induction xs arbitrary: st) (auto split: sum.splits)

lemma participant_updates_circuits:
  "\<forall>w\<in>set ps. \<exists>r a b x u. w = UpdateParticipant r a b x u \<Longrightarrow>
     apply_writes st ps = Inr s \<Longrightarrow> circuits s = circuits st"
proof (induction ps arbitrary: st)
  case Nil
  then show ?case by simp
next
  case (Cons w ps)
  then obtain s' where w: "apply_write st w = Inr s'" and ps: "apply_writes s' ps = Inr s"
    by (auto split: sum.splits)
  from Cons.prems(1) obtain r a b x u where "w = UpdateParticipant r a b x u" by auto
  with w have "circuits s' = circuits st" by (auto split: option.splits)
  with Cons.IH [OF _ ps] Cons.prems(1) show ?case by simp
qed

lemma participant_updates_succeed:
  "\<forall>w\<in>set ps. \<exists>r a b x u. w = UpdateParticipant r a b x u \<and> r \<in> dom (participants st)
     \<Longrightarrow> \<exists>s. apply_writes st ps = Inr s"
proof (induction ps arbitrary: st)
  case Nil
  then show ?case by simp
next
  case (Cons w ps)
  then have "\<exists>r a b x u. w = UpdateParticipant r a b x u \<and> r \<in> dom (participants st)"
    by simp
  then obtain r a b x u where w: "w = UpdateParticipant r a b x u"
    and r: "r \<in> dom (participants st)" by blast
  from r obtain p where "participants st r = Some p" by blast
  with w obtain s' where s': "apply_write st w = Inr s'" by simp
  from apply_write_frame [OF s'] Cons.prems
  have "\<forall>w\<in>set ps. \<exists>r a b x u. w = UpdateParticipant r a b x u \<and> r \<in> dom (participants s')"
    by simp
  from Cons.IH [OF this] s' show ?case by simp
qed

lemma commit_queue_write:
  assumes "\<forall>w\<in>set ps. \<exists>r a b x u. w = UpdateParticipant r a b x u"
    and "commit st (ps @ [UpdateCircuit r None wq t]) = Inr st'"
  shows "circuits st' =
           map (\<lambda>(k, c). if k = r then (k, c\<lparr>waitingQueue := wq, circuitLastUpdated := t\<rparr>)
                          else (k, c)) (circuits st)"
proof -
  from assms(2) obtain s where s: "apply_writes st ps = Inr s"
    and w: "apply_write s (UpdateCircuit r None wq t) = Inr st'"
    by (auto simp: commit_def apply_writes_append split: sum.splits)
  from participant_updates_circuits [OF assms(1) s] w show ?thesis
    by (auto split: if_splits cong: if_cong)
qed

lemma commit_queue_write_succeeds:
  assumes "\<forall>w\<in>set ps. \<exists>r a b x u. w = UpdateParticipant r a b x u \<and> r \<in> dom (participants st)"
    and "r \<in> fst ` set (circuits st)"
  shows "\<exists>st'. commit st (ps @ [UpdateCircuit r None wq t]) = Inr st'"
proof -
  from participant_updates_succeed [OF assms(1)] obtain s where s: "apply_writes st ps = Inr s"
    by blast
  from assms(1) have "\<forall>w\<in>set ps. \<exists>r a b x u. w = UpdateParticipant r a b x u" by blast
  from participant_updates_circuits [OF this s] assms(2) s show ?thesis
    by (simp add: commit_def apply_writes_append)
qed

lemma getCircuitDocumentByPosition_frame:
  assumes "map (\<lambda>(k, c). (k, sequencePosition c)) (circuits st')
             = map (\<lambda>(k, c). (k, sequencePosition c)) (circuits st)"
    and "getCircuitDocumentByPosition st cer pos = Inr x"
  shows "\<exists>y. getCircuitDocumentByPosition st' cer pos = Inr y"
proof -
  from assms(2) have "x \<in> set (circuits st)" by (rule getCircuitDocumentByPosition_mem)
  moreover from assms(2) have "fst (fst x) = cer \<and> sequencePosition (snd x) = pos"
  proof -
    from assms(2) obtain rest where
      "filter (\<lambda>(r, c). fst r = cer \<and> sequencePosition c = pos) (circuits st) = x # rest"
      by (auto simp: getCircuitDocumentByPosition_def split: list.splits)
    then have "x \<in> set (filter (\<lambda>(r, c). fst r = cer \<and> sequencePosition c = pos) (circuits st))"
      by simp
    then show ?thesis by auto
  qed
  ultimately have "(fst x, pos) \<in> set (map (\<lambda>(k, c). (k, sequencePosition c)) (circuits st))"
    and cer: "fst (fst x) = cer"
    by force+
  with assms(1) have "(fst x, pos) \<in> set (map (\<lambda>(k, c). (k, sequencePosition c)) (circuits st'))"
    by simp
  then obtain c where "(fst x, c) \<in> set (circuits st')" and "sequencePosition c = pos"
    by auto
  with cer have "filter (\<lambda>(r, c). fst r = cer \<and> sequencePosition c = pos) (circuits st') \<noteq> []"
    by (auto simp: filter_empty_conv)
  then show ?thesis
    by (auto simp: getCircuitDocumentByPosition_def split: list.splits)
qed

lemma queue_write_changes:
  assumes "(r, c) \<in> set (circuits s)"
    and "circuits s' =
           map (\<lambda>(k, c). if k = r then (k, c\<lparr>waitingQueue := wq, circuitLastUpdated := t\<rparr>)
                          else (k, c)) (circuits s)"
    and "wq \<noteq> waitingQueue c"
  shows "\<not> same_up_to_lastUpdated s s'"
proof
  assume "same_up_to_lastUpdated s s'"
  then have "circuits (forget_lastUpdated s) = circuits (forget_lastUpdated s')"
    by (simp add: same_up_to_lastUpdated_def)
  then have "map (\<lambda>(r, c). (r, c\<lparr>circuitLastUpdated := 0\<rparr>)) (circuits s)
      = map ((\<lambda>(r, c). (r, c\<lparr>circuitLastUpdated := 0\<rparr>))
              \<circ> (\<lambda>(k, c). if k = r then (k, c\<lparr>waitingQueue := wq, circuitLastUpdated := t\<rparr>)
                          else (k, c))) (circuits s)"
    by (simp add: forget_lastUpdated_def assms(2))
  with assms(1) have "c\<lparr>circuitLastUpdated := 0\<rparr>
      = c\<lparr>waitingQueue := wq, circuitLastUpdated := 0\<rparr>"
    by (auto simp: map_eq_conv)
  then have "waitingQueue (c\<lparr>circuitLastUpdated := 0\<rparr>)
      = waitingQueue (c\<lparr>waitingQueue := wq, circuitLastUpdated := 0\<rparr>)"
    by simp
  with assms(3) show False by simp
qed

lemma queue_rewrite_same:
  assumes "distinct (map fst (circuits s))" and "(r, c) \<in> set (circuits s)"
    and "commit s [UpdateCircuit r None (waitingQueue c) t] = Inr s'"
  shows "same_up_to_lastUpdated s s'"
proof -
  have same: "c' = c" if "(r, c') \<in> set (circuits s)" for c'
    using assms(1,2) that by (meson eq_key_imp_eq_value)
  from assms(3) have s': "s' = s\<lparr>circuits :=
         map (\<lambda>(k, c'). if k = r
               then (k, c'\<lparr>waitingQueue := waitingQueue c, circuitLastUpdated := t\<rparr>)
               else (k, c')) (circuits s)\<rparr>"
    by (auto simp: commit_def split: if_splits cong: if_cong)
  have "map (\<lambda>(r, c). (r, c\<lparr>circuitLastUpdated := 0\<rparr>)) (circuits s')
      = map (\<lambda>(r, c). (r, c\<lparr>circuitLastUpdated := 0\<rparr>)) (circuits s)"
    unfolding s' using same by (auto simp: map_eq_conv)
  then show ?thesis
    by (simp add: same_up_to_lastUpdated_def forget_lastUpdated_def s')
qed


lemma coordinateCeremonyParticipant_frame:
  assumes "coordinateCeremonyParticipant st ex ch t = Inr st'"
  shows "dom (participants st') = dom (participants st)
       \<and> map (\<lambda>(k, c). (k, sequencePosition c)) (circuits st')
           = map (\<lambda>(k, c). (k, sequencePosition c)) (circuits st)"
  using assms
  by (auto simp: coordinateCeremonyParticipant_def commit_def Let_def
           split: if_splits sum.splits dest!: apply_writes_frame)

lemma keys_of_frame:
  assumes "map (\<lambda>(k, c). (k, sequencePosition c)) (circuits st')
             = map (\<lambda>(k, c). (k, sequencePosition c)) (circuits st)"
  shows "map fst (circuits st') = map fst (circuits st)"
proof -
  have "map fst (map (\<lambda>(k, c). (k, sequencePosition c)) xs) = map fst xs"
    for xs :: "(DocRef \<times> Circuit) list"
    by (induction xs) auto
  with assms show ?thesis by metis
qed

section \<open>Claims\<close>

text \<open>
  C1. Every queue-mutating operation preserves the head invariant: if every circuit of the
  Store has \<open>contributors[0] = currentContributor\<close> whenever \<open>currentContributor\<close> is
  non-empty, then so has the Store after any committed batch of \<open>coordinate\<close> on a circuit
  of the Store (single or multi participant, whatever the scenario), after the trigger
  \<open>coordinateCeremonyParticipant\<close>, and after \<open>verifycontribution\<close>.
\<close>

theorem head_invariant_preserved:
  assumes "store_head_invariant st"
  shows "(circuit \<in> set (circuits st)
            \<and> commit st (coordinate participant circuit single cid t) = Inr st1
          \<longrightarrow> store_head_invariant st1)
       \<and> (coordinateCeremonyParticipant st exParticipant changedParticipant t = Inr st2
          \<longrightarrow> store_head_invariant st2)
       \<and> (verifycontribution st env ext request = Inr st3 \<longrightarrow> store_head_invariant st3)"
  using assms commit_coordinate_head_invariant coordinateCeremonyParticipant_head_invariant
    verifycontribution_head_invariant
  by blast

theorem head_invariant_preserved_witness:
  "store_head_invariant busy_store
   \<and> \<not> isl (commit busy_store
         (coordinate ((''cer'', ''carol''), ex_participant READY [] 1 [] 0 0)
            ((''cer'', ''c1''), ex_circuit (ex_queue [''alice'', ''bob''] ''alice'') 0) True None 5))
   \<and> store_head_invariant (projr (commit busy_store
         (coordinate ((''cer'', ''carol''), ex_participant READY [] 1 [] 0 0)
            ((''cer'', ''c1''), ex_circuit (ex_queue [''alice'', ''bob''] ''alice'') 0) True None 5)))
   \<and> \<not> isl (coordinateCeremonyParticipant busy_store
         ((''cer'', ''alice''), ex_participant CONTRIBUTING VERIFYING 1 ex_pending 1000 1100)
         ((''cer'', ''alice''), ex_participant CONTRIBUTED COMPLETED 1 ex_pending 1000 1100) 5)
   \<and> store_head_invariant (projr (coordinateCeremonyParticipant busy_store
         ((''cer'', ''alice''), ex_participant CONTRIBUTING VERIFYING 1 ex_pending 1000 1100)
         ((''cer'', ''alice''), ex_participant CONTRIBUTED COMPLETED 1 ex_pending 1000 1100) 5))
   \<and> \<not> isl (verifycontribution busy_store ex_env (ex_ext True (Some ''ZKey Ok!''))
         (ex_request ''alice'' False))
   \<and> store_head_invariant (projr (verifycontribution busy_store ex_env
         (ex_ext True (Some ''ZKey Ok!'')) (ex_request ''alice'' False)))"
proof -
  let ?c = "((''cer'', ''c1''), ex_circuit (ex_queue [''alice'', ''bob''] ''alice'') 0)"
  let ?r1 = "commit busy_store
         (coordinate ((''cer'', ''carol''), ex_participant READY [] 1 [] 0 0) ?c True None 5)"
  let ?r2 = "coordinateCeremonyParticipant busy_store
         ((''cer'', ''alice''), ex_participant CONTRIBUTING VERIFYING 1 ex_pending 1000 1100)
         ((''cer'', ''alice''), ex_participant CONTRIBUTED COMPLETED 1 ex_pending 1000 1100) 5"
  let ?r3 = "verifycontribution busy_store ex_env (ex_ext True (Some ''ZKey Ok!''))
         (ex_request ''alice'' False)"
  have inv: "store_head_invariant busy_store"
    by (simp add: store_head_invariant_def head_invariant_def ex_defs)
  have mem: "?c \<in> set (circuits busy_store)"
    by (simp add: ex_defs)
  have ok1: "\<not> isl ?r1"
    by (simp add: model_defs ex_defs)
  have ok2: "\<not> isl ?r2"
    by (simp add: model_defs ex_defs)
  have ok3: "\<not> isl ?r3"
    by (simp add: model_defs ex_defs)
  have e1: "?r1 = Inr (projr ?r1)" using ok1 by (cases ?r1) simp_all
  have e2: "?r2 = Inr (projr ?r2)" using ok2 by (cases ?r2) simp_all
  have e3: "?r3 = Inr (projr ?r3)" using ok3 by (cases ?r3) simp_all
  from head_invariant_preserved [OF inv, of ?c _ _ _ _ "projr ?r1" _ _ "projr ?r2" _ _ _ "projr ?r3"]
    mem e1 e2 e3
  have "store_head_invariant (projr ?r1) \<and> store_head_invariant (projr ?r2)
        \<and> store_head_invariant (projr ?r3)"
    by blast
  with inv ok1 ok2 ok3 show ?thesis by blast
qed




text \<open>
  C3. The claim: on the valid path the \<open>contributionComputationTime\<close> of the new document is
  the \<open>computationTime\<close> of the one entry without a document, wherever it stands. The code
  filters for that entry and then reads \<open>contributions.at(0)\<close>: for a participant on its
  second circuit, whose pending entry (20 ms) comes after the linked one (10 ms), the
  document gets 10.
\<close>

theorem computation_time_of_first_entry:
  "filter isContributionWithoutDocRef ex_second_circuit
     = [\<lparr>doc = [], computationTime = 20, hash = ''h2''\<rparr>]
   \<and> \<not> isl (result (verifycontribution_batch
         (ex_store OPENED (ex_circuit (ex_queue [''alice''] ''alice'') 0)
            [((''cer'', ''alice''), ex_participant CONTRIBUTING VERIFYING 2 ex_second_circuit 1000 1100)])
         ex_env (ex_ext True (Some ''ZKey Ok!'')) (ex_request ''alice'' False)))
   \<and> map contributionComputationTime (createdContributions (projr (result (verifycontribution_batch
         (ex_store OPENED (ex_circuit (ex_queue [''alice''] ''alice'') 0)
            [((''cer'', ''alice''), ex_participant CONTRIBUTING VERIFYING 2 ex_second_circuit 1000 1100)])
         ex_env (ex_ext True (Some ''ZKey Ok!'')) (ex_request ''alice'' False)))))
     = [Some 10]"
  by (simp add: model_defs ex_defs)

theorem computation_time_of_first_entry_witness:
  "map contributionComputationTime (createdContributions (projr (result (verifycontribution_batch
         (ex_store OPENED (ex_circuit (ex_queue [''alice''] ''alice'') 0)
            [((''cer'', ''alice''), ex_participant CONTRIBUTING VERIFYING 2 ex_second_circuit 1000 1100)])
         ex_env (ex_ext True (Some ''ZKey Ok!'')) (ex_request ''alice'' False)))))
     \<noteq> map (\<lambda>c. Some (computationTime c)) (filter isContributionWithoutDocRef ex_second_circuit)"
  using computation_time_of_first_entry by simp

text \<open>
  C4, as stated, fails: a caller of an open ceremony whose status is not \<open>CONTRIBUTING\<close>
  gets through \<open>verifycontribution\<close> with the empty batch committed; nothing was found
  valid, and \<open>failedContributions\<close> is what it was.
\<close>

theorem counters_counterexample:
  "state (the (ceremonies busy_store ''cer'')) \<noteq> CLOSED
   \<and> \<not> includes_str ''snarkJS: invalid zkey'' ''ZKey Ok!''
   \<and> verifycontribution busy_store ex_env (ex_ext True (Some ''snarkJS: invalid zkey''))
        (ex_request ''carol'' False) = Inr busy_store
   \<and> map (\<lambda>(r, c). failedContributions (waitingQueue c)) (circuits busy_store) = [0]"
  by (simp add: model_defs ex_defs)

text \<open>
  C4, amended. For an invocation that commits, with its three documents in the Store:
  when it is not finalizing and the participant is \<open>CONTRIBUTING\<close>, the circuit's
  \<open>completedContributions\<close> grows by 1 exactly when the output holds \<open>ZKey Ok!\<close> and
  \<open>failedContributions\<close> by 1 exactly when it does not, and the average timings of an
  invalid contribution stay as they were; when it is finalizing, the circuits of the Store
  are not touched; when it is neither, the Store is unchanged.
\<close>

theorem counters_after_verification:
  assumes "auth request = Some token"
    and "ceremonies st (ceremonyId (data request)) = Some ceremonyDoc"
    and "map_of (circuits st) (ceremonyId (data request), circuitId (data request))
           = Some circuitDoc"
    and "participants st (ceremonyId (data request), uid token) = Some participantDoc"
    and "verifycontribution st env ext request = Inr st'"
  shows "(\<not> (state ceremonyDoc = CLOSED \<and> tokenCoordinator token)
          \<and> status participantDoc = CONTRIBUTING \<longrightarrow>
            (\<exists>out c'. retrieveCommandOutput ext = Some out
               \<and> map_of (circuits st') (ceremonyId (data request), circuitId (data request))
                    = Some c'
               \<and> completedContributions (waitingQueue c')
                    = completedContributions (waitingQueue circuitDoc)
                      + (if includes_str out ''ZKey Ok!'' then 1 else 0)
               \<and> failedContributions (waitingQueue c')
                    = failedContributions (waitingQueue circuitDoc)
                      + (if includes_str out ''ZKey Ok!'' then 0 else 1)
               \<and> (\<not> includes_str out ''ZKey Ok!'' \<longrightarrow> avgTimings c' = avgTimings circuitDoc)))
       \<and> (state ceremonyDoc = CLOSED \<and> tokenCoordinator token \<longrightarrow> circuits st' = circuits st)
       \<and> (\<not> (state ceremonyDoc = CLOSED \<and> tokenCoordinator token)
          \<and> status participantDoc \<noteq> CONTRIBUTING \<longrightarrow> st' = st)"
proof -
  let ?fin = "state ceremonyDoc = CLOSED \<and> tokenCoordinator token"
  let ?ref = "(ceremonyId (data request), circuitId (data request))"
  from assms(5) obtain batch where
    b: "result (verifycontribution_batch st env ext request) = Inr batch"
    and c: "commit st batch = Inr st'"
    by (auto simp: verifycontribution_def split: sum.splits)
  note docs = verifycontribution_batch_documents [OF assms(1-4) b]
  have contributing: ?thesis if nf: "\<not> ?fin" and st: "status participantDoc = CONTRIBUTING"
  proof -
    from docs nf st obtain calls out del where rw: "run_worker ext = (calls, Inr out)"
      and rc: "record_contribution env ext (data request) (uid token) participantDoc
                 circuitDoc False (includes_str out ''ZKey Ok!'') = (del, Inr batch)"
      by auto
    from record_contribution_not_finalizing [OF rc] obtain doc avg wq where
      batch: "batch = [CreateContribution ?ref doc, UpdateCircuit ?ref (Some avg) wq (now ext)]"
      and avg: "\<not> includes_str out ''ZKey Ok!'' \<longrightarrow> avg = avgTimings circuitDoc"
      and wq: "wq = (waitingQueue circuitDoc)
           \<lparr>completedContributions := completedContributions (waitingQueue circuitDoc)
               + (if includes_str out ''ZKey Ok!'' then 1 else 0),
            failedContributions := failedContributions (waitingQueue circuitDoc)
               + (if includes_str out ''ZKey Ok!'' then 0 else 1)\<rparr>"
      by auto
    from c have st': "st' = st\<lparr>contributionDocs := contributionDocs st @ [(?ref, doc)],
                  circuits := map (\<lambda>(k, c). if k = ?ref
                      then (k, c\<lparr>avgTimings := avg, waitingQueue := wq,
                                circuitLastUpdated := now ext\<rparr>)
                      else (k, c)) (circuits st)\<rparr>"
      unfolding batch commit_create_and_update [OF assms(3)] by simp
    have "map_of (circuits st') ?ref
            = Some (circuitDoc\<lparr>avgTimings := avg, waitingQueue := wq,
                               circuitLastUpdated := now ext\<rparr>)"
      unfolding st' using map_of_update_circuit [OF assms(3)] by simp
    with run_worker_output [OF rw] avg wq nf st show ?thesis
      by auto
  qed
  have finalizing: ?thesis if f: ?fin
  proof -
    from docs f obtain calls out del where
      rc: "record_contribution env ext (data request) (uid token) participantDoc
                 circuitDoc True (includes_str out ''ZKey Ok!'') = (del, Inr batch)"
      by auto
    from record_contribution_finalizing [OF rc] obtain doc where
      "batch = [CreateContribution ?ref doc]" by blast
    with c have "circuits st' = circuits st"
      by (auto dest: apply_create_only)
    with f show ?thesis by simp
  qed
  have neither: ?thesis if nf: "\<not> ?fin" and st: "status participantDoc \<noteq> CONTRIBUTING"
  proof -
    from docs nf st have "batch = []" by auto
    with c have "st' = st" by (simp add: commit_def)
    with nf st show ?thesis by simp
  qed
  from contributing finalizing neither show ?thesis by blast
qed


theorem counters_after_verification_witness:
  "\<not> isl (verifycontribution busy_store ex_env (ex_ext True (Some ''snarkJS: invalid zkey''))
            (ex_request ''alice'' False))
   \<and> map_option (\<lambda>c. (completedContributions (waitingQueue c),
                       failedContributions (waitingQueue c), avgTimings c))
        (map_of (circuits (projr (verifycontribution busy_store ex_env
            (ex_ext True (Some ''snarkJS: invalid zkey'')) (ex_request ''alice'' False))))
           (''cer'', ''c1''))
      = Some (0, 1, \<lparr>contributionComputation = 0, fullContribution = 0,
                      verifyCloudFunction = 0\<rparr>)
   \<and> \<not> isl (verifycontribution closed_store ex_env (ex_ext True (Some ''ZKey Ok!''))
            (ex_request ''coord'' True))
   \<and> circuits (projr (verifycontribution closed_store ex_env (ex_ext True (Some ''ZKey Ok!''))
            (ex_request ''coord'' True))) = circuits closed_store
   \<and> \<not> isl (verifycontribution busy_store ex_env (ex_ext True (Some ''ZKey Ok!''))
            (ex_request ''carol'' False))
   \<and> projr (verifycontribution busy_store ex_env (ex_ext True (Some ''ZKey Ok!''))
            (ex_request ''carol'' False)) = busy_store"
proof -
  let ?bad = "ex_ext True (Some ''snarkJS: invalid zkey'')"
  let ?good = "ex_ext True (Some ''ZKey Ok!'')"
  let ?r1 = "verifycontribution busy_store ex_env ?bad (ex_request ''alice'' False)"
  let ?r2 = "verifycontribution closed_store ex_env ?good (ex_request ''coord'' True)"
  let ?r3 = "verifycontribution busy_store ex_env ?good (ex_request ''carol'' False)"
  have ok1: "\<not> isl ?r1" by (simp add: model_defs ex_defs)
  have ok2: "\<not> isl ?r2" by (simp add: model_defs ex_defs)
  have ok3: "\<not> isl ?r3" by (simp add: model_defs ex_defs)
  have e1: "?r1 = Inr (projr ?r1)" using ok1 by (cases ?r1) simp_all
  have e2: "?r2 = Inr (projr ?r2)" using ok2 by (cases ?r2) simp_all
  have e3: "?r3 = Inr (projr ?r3)" using ok3 by (cases ?r3) simp_all
  have a1: "auth (ex_request ''alice'' False)
      = Some \<lparr>uid = ''alice'', tokenParticipant = True, tokenCoordinator = False\<rparr>"
    and a2: "auth (ex_request ''coord'' True)
      = Some \<lparr>uid = ''coord'', tokenParticipant = True, tokenCoordinator = True\<rparr>"
    and a3: "auth (ex_request ''carol'' False)
      = Some \<lparr>uid = ''carol'', tokenParticipant = True, tokenCoordinator = False\<rparr>"
    by (simp_all add: ex_defs)
  have t1: "map_option (\<lambda>c. (completedContributions (waitingQueue c),
                       failedContributions (waitingQueue c), avgTimings c))
        (map_of (circuits (projr ?r1)) (''cer'', ''c1''))
      = Some (0, 1, \<lparr>contributionComputation = 0, fullContribution = 0,
                      verifyCloudFunction = 0\<rparr>)"
    using counters_after_verification [OF a1 _ _ _ e1,
        of "\<lparr>state = OPENED\<rparr>" "ex_circuit (ex_queue [''alice'', ''bob''] ''alice'') 0"
           "ex_participant CONTRIBUTING VERIFYING 1 ex_pending 1000 1100"]
    by (auto simp: ex_defs)
  have t2: "circuits (projr ?r2) = circuits closed_store"
    using counters_after_verification [OF a2 _ _ _ e2,
        of "\<lparr>state = CLOSED\<rparr>" "ex_circuit (ex_queue [] []) 0"
           "ex_participant FINALIZING COMPLETED 1 ex_pending 0 0"]
    by (simp add: ex_defs)
  have t3: "projr ?r3 = busy_store"
    using counters_after_verification [OF a3 _ _ _ e3,
        of "\<lparr>state = OPENED\<rparr>" "ex_circuit (ex_queue [''alice'', ''bob''] ''alice'') 0"
           "ex_participant READY [] 1 [] 0 0"]
    by (simp add: ex_defs)
  from ok1 ok2 ok3 t1 t2 t3 show ?thesis by blast
qed

text \<open>
  C5. On a valid contribution of a contributing participant (not finalizing) that commits,
  each of the three averages of the circuit becomes \<open>rolling rd prev sample\<close>, where \<open>rd\<close>
  is the rounding of the platform's arithmetic: \<open>prev > 0 ? (prev + sample) / 2 : sample\<close>
  as JavaScript computes it, the sum rounded and its half rounded; where the sum and its
  half are binary64 numbers this is the exact \<open>(prev + sample) / 2\<close>. The samples are the
  computation time read from the participant,
  \<open>verificationStartedAt - contributionStartedAt\<close> and the timer of the function. On a
  fresh circuit, three valid contributions with full contribution times 100, 300 and 500
  leave the \<open>fullContribution\<close> average at 100, then 200, then 350, whatever the rounding
  does outside the binary64 numbers.
\<close>

theorem rolling_means:
  assumes "auth request = Some token"
    and "ceremonies st (ceremonyId (data request)) = Some ceremonyDoc"
    and "map_of (circuits st) (ceremonyId (data request), circuitId (data request))
           = Some circuitDoc"
    and "participants st (ceremonyId (data request), uid token) = Some participantDoc"
    and "\<not> (state ceremonyDoc = CLOSED \<and> tokenCoordinator token)"
    and "status participantDoc = CONTRIBUTING"
    and "retrieveCommandOutput ext = Some out" and "includes_str out ''ZKey Ok!''"
    and "verifycontribution st env ext request = Inr st'"
  shows "(\<exists>c'. map_of (circuits st') (ceremonyId (data request), circuitId (data request))
                  = Some c'
            \<and> contributionComputation (avgTimings c')
                = rolling (roundToDouble ext) (contributionComputation (avgTimings circuitDoc))
                    (computationTime (hd (contributions participantDoc)))
            \<and> fullContribution (avgTimings c')
                = rolling (roundToDouble ext) (fullContribution (avgTimings circuitDoc))
                    (roundToDouble ext
                      (verificationStartedAt participantDoc
                         - contributionStartedAt participantDoc))
            \<and> verifyCloudFunction (avgTimings c')
                = rolling (roundToDouble ext) (verifyCloudFunction (avgTimings circuitDoc))
                    (verifyContributionTimer_ms ext))
       \<and> (\<forall>rd prev sample. rolling rd prev sample
             = (if prev > 0 then rd (rd (prev + sample) / 2) else sample))
       \<and> (\<forall>rd prev sample.
             exact_on_binary64 rd \<and> binary64 (prev + sample) \<and> binary64 ((prev + sample) / 2)
             \<longrightarrow> rolling rd prev sample = (if prev > 0 then (prev + sample) / 2 else sample))
       \<and> (\<forall>rd. exact_on_binary64 rd \<longrightarrow>
             map (\<lambda>s. map (\<lambda>(r, c). fullContribution (avgTimings c)) (circuits s))
               (verify_sequence fresh_store ex_env
                  ((ex_ext True (Some ''ZKey Ok!''))\<lparr>roundToDouble := rd\<rparr>)
                  [ex_request ''u1'' False, ex_request ''u2'' False, ex_request ''u3'' False])
             = [[100], [200], [350]])"
proof (intro conjI)
  let ?ref = "(ceremonyId (data request), circuitId (data request))"
  let ?rd = "roundToDouble ext"
  show "\<forall>rd prev sample. rolling rd prev sample
             = (if prev > 0 then rd (rd (prev + sample) / 2) else sample)"
    by (simp add: rolling_def)
  show "\<forall>rd prev sample.
             exact_on_binary64 rd \<and> binary64 (prev + sample) \<and> binary64 ((prev + sample) / 2)
             \<longrightarrow> rolling rd prev sample = (if prev > 0 then (prev + sample) / 2 else sample)"
    by (simp add: rolling_def exact_on_binary64_def)
  show "\<forall>rd. exact_on_binary64 rd \<longrightarrow>
             map (\<lambda>s. map (\<lambda>(r, c). fullContribution (avgTimings c)) (circuits s))
               (verify_sequence fresh_store ex_env
                  ((ex_ext True (Some ''ZKey Ok!''))\<lparr>roundToDouble := rd\<rparr>)
                  [ex_request ''u1'' False, ex_request ''u2'' False, ex_request ''u3'' False])
             = [[100], [200], [350]]"
  proof (intro allI impI)
    fix rd :: "rat \<Rightarrow> rat"
    assume ex: "exact_on_binary64 rd"
    note exact_numeral [OF ex, simp]
    show "map (\<lambda>s. map (\<lambda>(r, c). fullContribution (avgTimings c)) (circuits s))
               (verify_sequence fresh_store ex_env
                  ((ex_ext True (Some ''ZKey Ok!''))\<lparr>roundToDouble := rd\<rparr>)
                  [ex_request ''u1'' False, ex_request ''u2'' False, ex_request ''u3'' False])
             = [[100], [200], [350]]"
      by (simp add: model_defs ex_defs)
  qed
  show "\<exists>c'. map_of (circuits st') ?ref = Some c'
            \<and> contributionComputation (avgTimings c')
                = rolling ?rd (contributionComputation (avgTimings circuitDoc))
                    (computationTime (hd (contributions participantDoc)))
            \<and> fullContribution (avgTimings c')
                = rolling ?rd (fullContribution (avgTimings circuitDoc))
                    (?rd (verificationStartedAt participantDoc
                         - contributionStartedAt participantDoc))
            \<and> verifyCloudFunction (avgTimings c')
                = rolling ?rd (verifyCloudFunction (avgTimings circuitDoc))
                    (verifyContributionTimer_ms ext)"
  proof -
    from assms(9) obtain batch where
      b: "result (verifycontribution_batch st env ext request) = Inr batch"
      and c: "commit st batch = Inr st'"
      by (auto simp: verifycontribution_def split: sum.splits)
    from verifycontribution_batch_documents [OF assms(1-4) b] assms(5,6)
    obtain calls out' del where rw: "run_worker ext = (calls, Inr out')"
      and rc': "record_contribution env ext (data request) (uid token) participantDoc
                 circuitDoc False (includes_str out' ''ZKey Ok!'') = (del, Inr batch)"
      by auto
    from run_worker_output [OF rw] assms(7) have "out' = out" by simp
    with rc' assms(8) have rc: "record_contribution env ext (data request) (uid token)
                 participantDoc circuitDoc False True = (del, Inr batch)"
      by simp
    define avg where "avg =
           \<lparr>contributionComputation =
              rolling ?rd (contributionComputation (avgTimings circuitDoc))
                (computationTime (hd (contributions participantDoc))),
            fullContribution =
              rolling ?rd (fullContribution (avgTimings circuitDoc))
                (?rd (verificationStartedAt participantDoc
                        - contributionStartedAt participantDoc)),
            verifyCloudFunction =
              rolling ?rd (verifyCloudFunction (avgTimings circuitDoc))
                (verifyContributionTimer_ms ext)\<rparr>"
    from record_contribution_not_finalizing [OF rc] obtain doc wq where
      batch: "batch = [CreateContribution ?ref doc, UpdateCircuit ?ref (Some avg) wq (now ext)]"
      unfolding avg_def by auto
    from c have st': "circuits st'
         = map (\<lambda>(k, c). if k = ?ref
              then (k, c\<lparr>avgTimings := avg, waitingQueue := wq, circuitLastUpdated := now ext\<rparr>)
              else (k, c)) (circuits st)"
      unfolding batch commit_create_and_update [OF assms(3)] by auto
    show ?thesis
      unfolding st' using map_of_update_circuit [OF assms(3)] by (simp add: avg_def)
  qed
qed

theorem rolling_means_witness:
  "\<not> isl (verifycontribution warm_store ex_env (ex_ext True (Some ''ZKey Ok!''))
            (ex_request ''alice'' False))
   \<and> map_option avgTimings
        (map_of (circuits (projr (verifycontribution warm_store ex_env
            (ex_ext True (Some ''ZKey Ok!'')) (ex_request ''alice'' False)))) (''cer'', ''c1''))
      = Some \<lparr>contributionComputation = 70, fullContribution = 200,
               verifyCloudFunction = 107 / 2\<rparr>
   \<and> exact_on_binary64 (\<lambda>x. x) \<and> binary64 (100 + 300) \<and> binary64 ((100 + 300) / 2)
   \<and> rolling (\<lambda>x. x) 100 300 = 200
   \<and> map (\<lambda>s. map (\<lambda>(r, c). fullContribution (avgTimings c)) (circuits s))
       (verify_sequence fresh_store ex_env
          ((ex_ext True (Some ''ZKey Ok!''))\<lparr>roundToDouble := (\<lambda>x. x)\<rparr>)
          [ex_request ''u1'' False, ex_request ''u2'' False, ex_request ''u3'' False])
     = [[100], [200], [350]]"
proof -
  let ?ext = "ex_ext True (Some ''ZKey Ok!'')"
  let ?r = "verifycontribution warm_store ex_env ?ext (ex_request ''alice'' False)"
  let ?p = "ex_participant CONTRIBUTING VERIFYING 1 ex_pending 2000 2300"
  let ?c = "ex_circuit (ex_queue [''alice''] ''alice'') 100"
  have ok: "\<not> isl ?r" by (simp add: model_defs ex_defs)
  then have e: "?r = Inr (projr ?r)" by (cases ?r) simp_all
  have a: "auth (ex_request ''alice'' False)
      = Some \<lparr>uid = ''alice'', tokenParticipant = True, tokenCoordinator = False\<rparr>"
    by (simp add: ex_defs)
  have h2: "ceremonies warm_store (ceremonyId (data (ex_request ''alice'' False)))
      = Some \<lparr>state = OPENED\<rparr>"
    and h3: "map_of (circuits warm_store) (ceremonyId (data (ex_request ''alice'' False)),
        circuitId (data (ex_request ''alice'' False))) = Some ?c"
    and h4: "participants warm_store (ceremonyId (data (ex_request ''alice'' False)),
        uid \<lparr>uid = ''alice'', tokenParticipant = True, tokenCoordinator = False\<rparr>) = Some ?p"
    and h5: "\<not> (state \<lparr>state = OPENED\<rparr> = CLOSED
               \<and> tokenCoordinator \<lparr>uid = ''alice'', tokenParticipant = True,
                                     tokenCoordinator = False\<rparr>)"
    and h6: "status ?p = CONTRIBUTING"
    and h7: "retrieveCommandOutput ?ext = Some ''ZKey Ok!''"
    and h8: "includes_str ''ZKey Ok!'' ''ZKey Ok!''"
    by (simp_all add: ex_defs)
  note T = rolling_means [OF a h2 h3 h4 h5 h6 h7 h8 e]
  have ex: "exact_on_binary64 (\<lambda>x. x)"
    by (simp add: exact_on_binary64_def)
  have b1: "binary64 (100 + 300)" and b2: "binary64 ((100 + 300) / 2)"
    using binary64_of_int [of 400] binary64_of_int [of 200] by simp_all
  from T ex b1 b2
  have "rolling (\<lambda>x. x) 100 300 = (if (100::rat) > 0 then (100 + 300) / 2 else 300)"
    by blast
  then have r: "rolling (\<lambda>x. x) 100 300 = 200" by simp
  from T ex have sc: "map (\<lambda>s. map (\<lambda>(r, c). fullContribution (avgTimings c)) (circuits s))
       (verify_sequence fresh_store ex_env (?ext\<lparr>roundToDouble := (\<lambda>x. x)\<rparr>)
          [ex_request ''u1'' False, ex_request ''u2'' False, ex_request ''u3'' False])
     = [[100], [200], [350]]"
    by blast
  from T obtain c' where "map_of (circuits (projr ?r)) (''cer'', ''c1'') = Some c'"
    and "contributionComputation (avgTimings c') = 70"
    and "fullContribution (avgTimings c') = 200"
    and "verifyCloudFunction (avgTimings c') = 107 / 2"
    by (auto simp: ex_defs rolling_def)
  then have "map_option avgTimings (map_of (circuits (projr ?r)) (''cer'', ''c1''))
      = Some \<lparr>contributionComputation = 70, fullContribution = 200,
               verifyCloudFunction = 107 / 2\<rparr>"
    by (cases "avgTimings c'") simp
  with ok ex b1 b2 r sc show ?thesis by blast
qed

text \<open>
  C6, as stated, fails: a participant resuming after a timeout, whose contribution had
  started at 1000, is coordinated at 5000 and gets \<open>contributionStartedAt = 5000\<close>.
\<close>

theorem resume_resets_start_time_counterexample:
  "map_option contributionStartedAt (participants resume_store (''cer'', ''alice'')) = Some 1000
   \<and> \<not> isl (coordinateCeremonyParticipant resume_store
         ((''cer'', ''alice''), ex_participant TIMEDOUT COMPUTING 1 [] 1000 0)
         ((''cer'', ''alice''), ex_participant READY COMPUTING 1 [] 1000 0) 5000)
   \<and> map_option (\<lambda>p. (status p, contributionStep p, contributionStartedAt p))
       (participants (projr (coordinateCeremonyParticipant resume_store
         ((''cer'', ''alice''), ex_participant TIMEDOUT COMPUTING 1 [] 1000 0)
         ((''cer'', ''alice''), ex_participant READY COMPUTING 1 [] 1000 0) 5000))
          (''cer'', ''alice''))
     = Some (CONTRIBUTING, DOWNLOADING, 5000)"
  by (simp add: model_defs ex_defs)

text \<open>
  C6, amended. In a single-participant coordination of a participant that is the circuit's
  current contributor and has status \<open>READY\<close>, the committed batch sets the participant's
  status to \<open>CONTRIBUTING\<close>, its step to \<open>DOWNLOADING\<close> and its \<open>contributionStartedAt\<close> to
  the timestamp of the coordination.
\<close>

theorem resume_sets_start_time:
  assumes "currentContributor (waitingQueue (snd circuit)) = snd (fst participant)"
    and "status (snd participant) = READY"
    and "participants st (fst participant) = Some p"
    and "map_of (circuits st) (fst circuit) = Some c"
  shows "\<exists>st' p'. commit st (coordinate participant circuit True cid t) = Inr st'
           \<and> participants st' (fst participant) = Some p'
           \<and> status p' = CONTRIBUTING \<and> contributionStep p' = DOWNLOADING
           \<and> contributionStartedAt p' = t"
proof -
  from coordinate_current_and_ready [OF assms(1,2)] obtain wq where
    "coordinate participant circuit True cid t =
     [UpdateParticipant (fst participant) None (Some DOWNLOADING) None t,
      UpdateParticipant (fst participant) (Some CONTRIBUTING) None (Some t) t,
      UpdateCircuit (fst circuit) None wq t]"
    by blast
  then show ?thesis
    by (simp add: commit_single_batch [OF assms(3,4)])
qed

theorem resume_sets_start_time_witness:
  "\<not> isl (commit resume_store (coordinate
        ((''cer'', ''alice''), ex_participant READY COMPUTING 1 [] 1000 0)
        ((''cer'', ''c1''), ex_circuit (ex_queue [''alice'', ''bob''] ''alice'') 0) True None 5000))
   \<and> map_option (\<lambda>p. (status p, contributionStep p, contributionStartedAt p))
       (participants (projr (commit resume_store (coordinate
        ((''cer'', ''alice''), ex_participant READY COMPUTING 1 [] 1000 0)
        ((''cer'', ''c1''), ex_circuit (ex_queue [''alice'', ''bob''] ''alice'') 0) True None 5000)))
          (''cer'', ''alice''))
     = Some (CONTRIBUTING, DOWNLOADING, 5000)"
proof -
  let ?p = "((''cer'', ''alice''), ex_participant READY COMPUTING 1 [] 1000 0)"
  let ?c = "((''cer'', ''c1''), ex_circuit (ex_queue [''alice'', ''bob''] ''alice'') 0)"
  have h1: "currentContributor (waitingQueue (snd ?c)) = snd (fst ?p)"
    and h2: "status (snd ?p) = READY"
    and h3: "participants resume_store (fst ?p) = Some (snd ?p)"
    and h4: "map_of (circuits resume_store) (fst ?c) = Some (snd ?c)"
    by (simp_all add: ex_defs)
  from resume_sets_start_time [OF h1 h2 h3 h4, of None 5000]
  show ?thesis by auto
qed

text \<open>
  C7, as stated, fails: an authenticated participant with complete inputs and environment
  whose status is \<open>READY\<close>, in an open ceremony, gets no error: the body of step (1) is
  skipped, the empty batch is committed and the call returns.
\<close>

theorem ineligible_caller_counterexample:
  "status (the (participants busy_store (''cer'', ''carol''))) \<noteq> CONTRIBUTING
   \<and> state (the (ceremonies busy_store ''cer'')) \<noteq> CLOSED
   \<and> verifycontribution_batch busy_store ex_env (ex_ext True (Some ''ZKey Ok!''))
        (ex_request ''carol'' False)
      = \<lparr>workerCalls = [], deletedObjects = [], result = Inr []\<rparr>
   \<and> \<not> isl (verifycontribution busy_store ex_env (ex_ext True (Some ''ZKey Ok!''))
        (ex_request ''carol'' False))"
  by (simp add: model_defs ex_defs)

text \<open>
  C7, amended. For an authenticated caller with complete inputs and environment whose
  participant status is not \<open>CONTRIBUTING\<close> and who is not the coordinator of a closed
  ceremony, the worker is never called and nothing is deleted or written: with the
  ceremony and circuit documents present the call commits the empty batch and returns
  with the Store unchanged; only a missing document makes it fail, with
  \<open>CM_INEXISTENT_DOCUMENT_DATA\<close>.
\<close>

theorem ineligible_caller_no_mutation:
  assumes "auth request = Some token"
    and "tokenParticipant token \<or> tokenCoordinator token"
    and "ceremonyId (data request) \<noteq> []" and "circuitId (data request) \<noteq> []"
    and "contributorOrCoordinatorIdentifier (data request) \<noteq> []"
    and "bucketName (data request) \<noteq> []"
    and "truthy (SOFTWARE_NAME env)" and "truthy (SOFTWARE_VERSION env)"
    and "truthy (SOFTWARE_COMMIT_HASH env)"
    and "participants st (ceremonyId (data request), uid token) = Some participantDoc"
    and "status participantDoc \<noteq> CONTRIBUTING"
    and "\<forall>ceremonyDoc. ceremonies st (ceremonyId (data request)) = Some ceremonyDoc \<longrightarrow>
           \<not> (state ceremonyDoc = CLOSED \<and> tokenCoordinator token)"
  shows "verifycontribution_batch st env ext request =
           \<lparr>workerCalls = [], deletedObjects = [],
            result =
              (if ceremonies st (ceremonyId (data request)) = None
                  \<or> map_of (circuits st) (ceremonyId (data request), circuitId (data request))
                       = None
               then Inl CM_INEXISTENT_DOCUMENT_DATA else Inr [])\<rparr>
       \<and> verifycontribution st env ext request =
           (if ceremonies st (ceremonyId (data request)) = None
               \<or> map_of (circuits st) (ceremonyId (data request), circuitId (data request))
                    = None
            then Inl CM_INEXISTENT_DOCUMENT_DATA else Inr st)"
  using assms
  by (auto simp: verifycontribution_def verifycontribution_batch_def commit_def Let_def
           split: option.splits)

theorem ineligible_caller_no_mutation_witness:
  "verifycontribution_batch busy_store ex_env (ex_ext True (Some ''ZKey Ok!''))
        (ex_request ''carol'' False)
      = \<lparr>workerCalls = [], deletedObjects = [], result = Inr []\<rparr>
   \<and> verifycontribution busy_store ex_env (ex_ext True (Some ''ZKey Ok!''))
        (ex_request ''carol'' False) = Inr busy_store"
proof -
  let ?token = "\<lparr>uid = ''carol'', tokenParticipant = True, tokenCoordinator = False\<rparr>"
  have "auth (ex_request ''carol'' False) = Some ?token"
    and "tokenParticipant ?token \<or> tokenCoordinator ?token"
    and "ceremonyId (data (ex_request ''carol'' False)) \<noteq> []"
    and "circuitId (data (ex_request ''carol'' False)) \<noteq> []"
    and "contributorOrCoordinatorIdentifier (data (ex_request ''carol'' False)) \<noteq> []"
    and "bucketName (data (ex_request ''carol'' False)) \<noteq> []"
    and "truthy (SOFTWARE_NAME ex_env)" and "truthy (SOFTWARE_VERSION ex_env)"
    and "truthy (SOFTWARE_COMMIT_HASH ex_env)"
    and "participants busy_store (ceremonyId (data (ex_request ''carol'' False)), uid ?token)
          = Some (ex_participant READY [] 1 [] 0 0)"
    and "status (ex_participant READY [] 1 [] 0 0) \<noteq> CONTRIBUTING"
    and "\<forall>ceremonyDoc. ceremonies busy_store (ceremonyId (data (ex_request ''carol'' False)))
             = Some ceremonyDoc \<longrightarrow>
           \<not> (state ceremonyDoc = CLOSED \<and> tokenCoordinator ?token)"
    by (simp_all add: ex_defs truthy_def)
  from ineligible_caller_no_mutation [OF this, of "ex_ext True (Some ''ZKey Ok!'')"]
  show ?thesis by (simp add: ex_defs)
qed

text \<open>
  C8, as stated, fails: when starting the worker throws, the invocation ends with that
  error after the single call to the worker; no contribution document is in any batch,
  nothing is committed and the worker is not stopped.
\<close>

theorem worker_failure_counterexample:
  "verifycontribution_batch busy_store ex_env (ex_ext False None) (ex_request ''alice'' False)
     = \<lparr>workerCalls = [StartWorker], deletedObjects = [],
        result = Inl (WorkerFailure StartWorker)\<rparr>
   \<and> verifycontribution busy_store ex_env (ex_ext False None) (ex_request ''alice'' False)
     = Inl (WorkerFailure StartWorker)"
  by (simp add: model_defs ex_defs)

text \<open>
  C8, amended. If starting the worker, probing it, running the commands or retrieving their
  output throws, then stopping the worker is not attempted; an invocation that had reached
  the worker ends with the error of the failed call, so that no contribution document is
  recorded and the Store is unchanged. A probe that answers "not running" changes nothing:
  the run goes on as with a running worker.
\<close>

theorem worker_failure_aborts:
  assumes "\<not> startEC2Instance ext \<or> checkEC2Status ext = None \<or> runCommandOnEC2 ext = None
           \<or> retrieveCommandOutput ext = None"
  shows "StopWorker \<notin> set (workerCalls (verifycontribution_batch st env ext request))
       \<and> (workerCalls (verifycontribution_batch st env ext request) \<noteq> [] \<longrightarrow>
            (\<exists>call. call \<noteq> StopWorker
               \<and> result (verifycontribution_batch st env ext request)
                    = Inl (WorkerFailure call)
               \<and> verifycontribution st env ext request = Inl (WorkerFailure call)))
       \<and> (\<forall>batch. result (verifycontribution_batch st env ext request) = Inr batch \<longrightarrow>
            batch = [])
       \<and> (\<forall>st'. verifycontribution st env ext request = Inr st' \<longrightarrow> st' = st)
       \<and> (\<forall>running. run_worker (ext\<lparr>checkEC2Status := Some running\<rparr>)
              = run_worker (ext\<lparr>checkEC2Status := Some True\<rparr>))"
proof -
  from run_worker_failure [OF assms] obtain calls call where
    rw: "run_worker ext = (calls, Inl (WorkerFailure call))"
    and ns: "call \<noteq> StopWorker" "StopWorker \<notin> set calls"
    by blast
  let ?out = "verifycontribution_batch st env ext request"
  have cases: "?out = \<lparr>workerCalls = calls, deletedObjects = [],
                       result = Inl (WorkerFailure call)\<rparr>
        \<or> (workerCalls ?out = [] \<and> (isl (result ?out) \<or> result ?out = Inr []))"
    using rw
    by (auto simp: verifycontribution_batch_def Let_def split: option.splits)
  have probe: "\<forall>running. run_worker (ext\<lparr>checkEC2Status := Some running\<rparr>)
              = run_worker (ext\<lparr>checkEC2Status := Some True\<rparr>)"
    by (simp add: run_worker_def cong: option.case_cong if_cong)
  from cases show ?thesis
  proof
    assume o: "?out = \<lparr>workerCalls = calls, deletedObjects = [],
                       result = Inl (WorkerFailure call)\<rparr>"
    then have "verifycontribution st env ext request = Inl (WorkerFailure call)"
      by (simp add: verifycontribution_def)
    with o ns probe show ?thesis by auto
  next
    assume o: "workerCalls ?out = [] \<and> (isl (result ?out) \<or> result ?out = Inr [])"
    then have "\<forall>st'. verifycontribution st env ext request = Inr st' \<longrightarrow> st' = st"
      by (auto simp: verifycontribution_def commit_def isl_def split: sum.splits)
    with o probe show ?thesis by (auto simp: isl_def)
  qed
qed

theorem worker_failure_aborts_witness:
  "runCommandOnEC2 (ex_ext True None\<lparr>runCommandOnEC2 := None\<rparr>) = None
   \<and> workerCalls (verifycontribution_batch busy_store ex_env
        (ex_ext True None\<lparr>runCommandOnEC2 := None\<rparr>) (ex_request ''alice'' False))
      = [StartWorker, ProbeWorker, RunCommand]
   \<and> verifycontribution busy_store ex_env (ex_ext True None\<lparr>runCommandOnEC2 := None\<rparr>)
        (ex_request ''alice'' False) = Inl (WorkerFailure RunCommand)
   \<and> result (verifycontribution_batch busy_store ex_env
        (ex_ext True None\<lparr>runCommandOnEC2 := None\<rparr>) (ex_request ''carol'' False)) = Inr []
   \<and> verifycontribution busy_store ex_env (ex_ext True None\<lparr>runCommandOnEC2 := None\<rparr>)
        (ex_request ''carol'' False) = Inr busy_store"
proof -
  let ?ext = "ex_ext True None\<lparr>runCommandOnEC2 := None\<rparr>"
  have h: "\<not> startEC2Instance ?ext \<or> checkEC2Status ?ext = None \<or> runCommandOnEC2 ?ext = None
           \<or> retrieveCommandOutput ?ext = None"
    and r: "runCommandOnEC2 ?ext = None"
    by (simp_all add: ex_defs)
  have calls: "workerCalls (verifycontribution_batch busy_store ex_env ?ext
        (ex_request ''alice'' False)) = [StartWorker, ProbeWorker, RunCommand]"
    by (simp add: model_defs ex_defs)
  from worker_failure_aborts [OF h, of busy_store ex_env "ex_request ''alice'' False"] calls
  obtain call where "call \<noteq> StopWorker"
    and v: "verifycontribution busy_store ex_env ?ext (ex_request ''alice'' False)
         = Inl (WorkerFailure call)"
    by auto
  moreover have "verifycontribution busy_store ex_env ?ext (ex_request ''alice'' False)
         = Inl (WorkerFailure RunCommand)"
    by (simp add: model_defs ex_defs)
  moreover have ok: "\<not> isl (verifycontribution busy_store ex_env ?ext (ex_request ''carol'' False))"
    and res: "result (verifycontribution_batch busy_store ex_env ?ext
        (ex_request ''carol'' False)) = Inr []"
    by (simp_all add: model_defs ex_defs)
  moreover from ok have "verifycontribution busy_store ex_env ?ext (ex_request ''carol'' False)
      = Inr (projr (verifycontribution busy_store ex_env ?ext (ex_request ''carol'' False)))"
    by (cases "verifycontribution busy_store ex_env ?ext (ex_request ''carol'' False)") simp_all
  with worker_failure_aborts [OF h, of busy_store ex_env "ex_request ''carol'' False"]
  have "verifycontribution busy_store ex_env ?ext (ex_request ''carol'' False) = Inr busy_store"
    by metis
  ultimately show ?thesis using r calls by simp
qed

text \<open>
  C9, as stated, fails: the pair that promoted a participant on an empty queue
  (Scenario A), delivered again, finds the participant as current contributor with the
  snapshot's status \<open>READY\<close>, takes the resume branch and empties \<open>currentContributor\<close>.
  Both invocations read the same clock, so the difference is not one of timestamps.
\<close>

theorem reinvocation_counterexample:
  "\<not> isl (coordinateCeremonyParticipant empty_queue_store
         ((''cer'', ''alice''), ex_participant WAITING [] 0 [] 0 0)
         ((''cer'', ''alice''), ex_participant READY [] 1 [] 0 0) 5)
   \<and> map (\<lambda>(r, c). (contributors (waitingQueue c), currentContributor (waitingQueue c)))
       (circuits (projr (coordinateCeremonyParticipant empty_queue_store
         ((''cer'', ''alice''), ex_participant WAITING [] 0 [] 0 0)
         ((''cer'', ''alice''), ex_participant READY [] 1 [] 0 0) 5)))
     = [([''alice''], ''alice'')]
   \<and> \<not> isl (reinvoke empty_queue_store
         ((''cer'', ''alice''), ex_participant WAITING [] 0 [] 0 0)
         ((''cer'', ''alice''), ex_participant READY [] 1 [] 0 0) 5)
   \<and> map (\<lambda>(r, c). (contributors (waitingQueue c), currentContributor (waitingQueue c)))
       (circuits (projr (reinvoke empty_queue_store
         ((''cer'', ''alice''), ex_participant WAITING [] 0 [] 0 0)
         ((''cer'', ''alice''), ex_participant READY [] 1 [] 0 0) 5)))
     = [([''alice''], [])]"
  by (simp add: reinvoke_def model_defs ex_defs)

text \<open>
  C9, amended. For a non-empty ceremony id and participant id, unique circuit references
  and a first invocation that returned: re-invoking the coordinator with the same
  before/after pair on the Store the first invocation left produces no net change, up to
  the \<open>lastUpdated\<close> timestamps, when the pair is no coordination event (the first
  invocation changed nothing either) and when it is a completion event and the circuit
  has no current contributor in that Store (nobody was promoted). The re-invocation does
  change the Store when the pair is a single-participant event (it returns, and the
  circuit has another waiting queue) and, whenever it commits, when a completion event
  finds a current contributor on the circuit.
\<close>

theorem reinvocation_net_change:
  assumes "fst (fst exParticipant) \<noteq> []"
    and "snd (fst changedParticipant) \<noteq> []"
    and "distinct (map fst (circuits st))"
    and "coordinateCeremonyParticipant st exParticipant changedParticipant t = Inr st1"
  shows "(\<not> singleParticipantEvent (snd exParticipant) (snd changedParticipant)
          \<and> \<not> multiParticipantEvent (snd exParticipant) (snd changedParticipant)
          \<longrightarrow> st1 = st
              \<and> coordinateCeremonyParticipant st1 exParticipant changedParticipant t' = Inr st1)
       \<and> (multiParticipantEvent (snd exParticipant) (snd changedParticipant)
          \<and> (\<exists>r c. getCircuitDocumentByPosition st1 (fst (fst exParticipant))
                      (contributionProgress (snd exParticipant)) = Inr (r, c)
                    \<and> currentContributor (waitingQueue c) = [])
          \<longrightarrow> (\<exists>st2. coordinateCeremonyParticipant st1 exParticipant changedParticipant t'
                         = Inr st2
                       \<and> same_up_to_lastUpdated st1 st2))
       \<and> (multiParticipantEvent (snd exParticipant) (snd changedParticipant)
          \<and> (\<exists>r c. getCircuitDocumentByPosition st1 (fst (fst exParticipant))
                      (contributionProgress (snd exParticipant)) = Inr (r, c)
                    \<and> currentContributor (waitingQueue c) \<noteq> [])
          \<longrightarrow> (\<forall>st2. coordinateCeremonyParticipant st1 exParticipant changedParticipant t'
                         = Inr st2
                       \<longrightarrow> \<not> same_up_to_lastUpdated st1 st2))
       \<and> (singleParticipantEvent (snd exParticipant) (snd changedParticipant)
          \<longrightarrow> (\<exists>st2. coordinateCeremonyParticipant st1 exParticipant changedParticipant t'
                         = Inr st2
                       \<and> \<not> same_up_to_lastUpdated st1 st2))"
proof -
  let ?ex = exParticipant and ?ch = changedParticipant
  let ?cer = "fst (fst exParticipant)"
  let ?single = "singleParticipantEvent (snd ?ex) (snd ?ch)"
  let ?multi = "multiParticipantEvent (snd ?ex) (snd ?ch)"
  note frame = coordinateCeremonyParticipant_frame [OF assms(4)]
  from frame have keys: "map fst (circuits st1) = map fst (circuits st)"
    by (intro keys_of_frame) simp
  with assms(3) have dist1: "distinct (map fst (circuits st1))" by simp
  have ignored: "st1 = st \<and> coordinateCeremonyParticipant st1 ?ex ?ch t' = Inr st1"
    if "\<not> ?single" "\<not> ?multi"
    using handler_ignored [OF that assms(1)] assms(4) by simp
  have quiet: "\<exists>st2. coordinateCeremonyParticipant st1 ?ex ?ch t' = Inr st2
                  \<and> same_up_to_lastUpdated st1 st2"
    if m: ?multi
      and g: "getCircuitDocumentByPosition st1 ?cer (contributionProgress (snd ?ex)) = Inr (r, c)"
      and cur: "currentContributor (waitingQueue c) = []" for r c
  proof -
    from coordinate_multi [OF assms(2), of r c "Some ?cer" t'] cur
    have batch: "coordinate ?ch (r, c) False (Some ?cer) t'
                   = [UpdateCircuit r None (waitingQueue c) t']"
      by auto
    from g have mem: "(r, c) \<in> set (circuits st1)"
      by (rule getCircuitDocumentByPosition_mem)
    then have "r \<in> fst ` set (circuits st1)" by force
    from commit_queue_write_succeeds [of "[]" st1 r "waitingQueue c" t'] this
    obtain st2 where c2: "commit st1 [UpdateCircuit r None (waitingQueue c) t'] = Inr st2"
      by auto
    from queue_rewrite_same [OF dist1 mem c2] c2 show ?thesis
      by (simp add: handler_multi [OF m assms(1)] g batch)
  qed
  have loud: "\<not> same_up_to_lastUpdated st1 st2"
    if m: ?multi
      and g: "getCircuitDocumentByPosition st1 ?cer (contributionProgress (snd ?ex)) = Inr (r, c)"
      and cur: "currentContributor (waitingQueue c) \<noteq> []"
      and second: "coordinateCeremonyParticipant st1 ?ex ?ch t' = Inr st2" for r c st2
  proof -
    from coordinate_multi [OF assms(2), of r c "Some ?cer" t'] cur
    obtain ps wq where batch: "coordinate ?ch (r, c) False (Some ?cer) t'
                   = ps @ [UpdateCircuit r None wq t']"
      and ps: "\<forall>w\<in>set ps. \<exists>r' a b s u. w = UpdateParticipant r' a b s u"
      and wq: "wq \<noteq> waitingQueue c"
      by blast
    from second have "commit st1 (ps @ [UpdateCircuit r None wq t']) = Inr st2"
      by (simp add: handler_multi [OF m assms(1)] g batch)
    from commit_queue_write [OF ps this] getCircuitDocumentByPosition_mem [OF g] wq
    show ?thesis by (intro queue_write_changes)
  qed
  have single: "\<exists>st2. coordinateCeremonyParticipant st1 ?ex ?ch t' = Inr st2
                  \<and> \<not> same_up_to_lastUpdated st1 st2"
    if s: ?single
  proof -
    from s have ready: "status (snd ?ch) = READY"
      by (simp add: singleParticipantEvent_def)
    let ?pos = "contributionProgress (snd ?ch)"
    from assms(4) obtain circuit0 where
      g0: "getCircuitDocumentByPosition st ?cer ?pos = Inr circuit0"
      and c0: "commit st (coordinate ?ch circuit0 True None t) = Inr st1"
      by (auto simp: handler_single [OF s assms(1)] split: sum.splits)
    from coordinate_single_ready [OF ready assms(2), of "fst circuit0" "snd circuit0" None t]
    obtain steps s0 x0 wq0 where b0: "coordinate ?ch circuit0 True None t
        = steps @ [UpdateParticipant (fst ?ch) (Some s0) None (Some x0) t,
                   UpdateCircuit (fst circuit0) None wq0 t]"
      by auto
    from c0 have "apply_writes st (steps @ [UpdateParticipant (fst ?ch) (Some s0) None (Some x0) t,
                   UpdateCircuit (fst circuit0) None wq0 t]) = Inr st1"
      by (simp add: commit_def b0)
    from apply_writes_targets [OF this, of "fst ?ch" "Some s0" None "Some x0" t]
    have "fst ?ch \<in> dom (participants st)" by simp
    with frame have p1: "fst ?ch \<in> dom (participants st1)" by simp
    from getCircuitDocumentByPosition_frame [OF _ g0, of st1] frame
    obtain r c where g1: "getCircuitDocumentByPosition st1 ?cer ?pos = Inr (r, c)"
      by auto
    from g1 have mem: "(r, c) \<in> set (circuits st1)"
      by (rule getCircuitDocumentByPosition_mem)
    then have key: "r \<in> fst ` set (circuits st1)" by force
    from coordinate_single_ready [OF ready assms(2), of r c None t']
    obtain steps s1 x1 wq where batch: "coordinate ?ch (r, c) True None t'
        = (steps @ [UpdateParticipant (fst ?ch) (Some s1) None (Some x1) t'])
            @ [UpdateCircuit r None wq t']"
      and steps: "steps = [] \<or> (\<exists>step. steps = [UpdateParticipant (fst ?ch) None (Some step) None t'])"
      and wq: "wq \<noteq> waitingQueue c"
      by auto
    let ?ps = "steps @ [UpdateParticipant (fst ?ch) (Some s1) None (Some x1) t']"
    from steps p1 have targets: "\<forall>w\<in>set ?ps. \<exists>r a b x u.
        w = UpdateParticipant r a b x u \<and> r \<in> dom (participants st1)"
      by (cases "fst changedParticipant") auto
    from commit_queue_write_succeeds [OF targets key, of wq t']
    obtain st2 where c2: "commit st1 (?ps @ [UpdateCircuit r None wq t']) = Inr st2"
      by blast
    from targets have "\<forall>w\<in>set ?ps. \<exists>r a b x u. w = UpdateParticipant r a b x u" by blast
    from commit_queue_write [OF this c2] mem wq
    have "\<not> same_up_to_lastUpdated st1 st2" by (intro queue_write_changes)
    with c2 show ?thesis
      by (simp add: handler_single [OF s assms(1)] g1 batch)
  qed
  from ignored quiet loud single show ?thesis by blast
qed


theorem reinvocation_net_change_witness:
  "coordinateCeremonyParticipant busy_store
     ((''cer'', ''alice''), ex_participant CONTRIBUTING DOWNLOADING 1 ex_pending 1000 0)
     ((''cer'', ''alice''), ex_participant CONTRIBUTING COMPUTING 1 ex_pending 1000 0) 9
     = Inr busy_store
   \<and> \<not> isl (coordinateCeremonyParticipant solo_store
         ((''cer'', ''alice''), ex_participant CONTRIBUTING VERIFYING 1 ex_pending 1000 1100)
         ((''cer'', ''alice''), ex_participant CONTRIBUTED COMPLETED 1 ex_pending 1000 1100) 5)
   \<and> same_up_to_lastUpdated
       (projr (coordinateCeremonyParticipant solo_store
         ((''cer'', ''alice''), ex_participant CONTRIBUTING VERIFYING 1 ex_pending 1000 1100)
         ((''cer'', ''alice''), ex_participant CONTRIBUTED COMPLETED 1 ex_pending 1000 1100) 5))
       (projr (coordinateCeremonyParticipant
         (projr (coordinateCeremonyParticipant solo_store
           ((''cer'', ''alice''), ex_participant CONTRIBUTING VERIFYING 1 ex_pending 1000 1100)
           ((''cer'', ''alice''), ex_participant CONTRIBUTED COMPLETED 1 ex_pending 1000 1100) 5))
         ((''cer'', ''alice''), ex_participant CONTRIBUTING VERIFYING 1 ex_pending 1000 1100)
         ((''cer'', ''alice''), ex_participant CONTRIBUTED COMPLETED 1 ex_pending 1000 1100) 9))
   \<and> \<not> isl (coordinateCeremonyParticipant busy_store
         ((''cer'', ''alice''), ex_participant CONTRIBUTING VERIFYING 1 ex_pending 1000 1100)
         ((''cer'', ''alice''), ex_participant CONTRIBUTED COMPLETED 1 ex_pending 1000 1100) 5)
   \<and> \<not> same_up_to_lastUpdated
       (projr (coordinateCeremonyParticipant busy_store
         ((''cer'', ''alice''), ex_participant CONTRIBUTING VERIFYING 1 ex_pending 1000 1100)
         ((''cer'', ''alice''), ex_participant CONTRIBUTED COMPLETED 1 ex_pending 1000 1100) 5))
       (projr (coordinateCeremonyParticipant
         (projr (coordinateCeremonyParticipant busy_store
           ((''cer'', ''alice''), ex_participant CONTRIBUTING VERIFYING 1 ex_pending 1000 1100)
           ((''cer'', ''alice''), ex_participant CONTRIBUTED COMPLETED 1 ex_pending 1000 1100) 5))
         ((''cer'', ''alice''), ex_participant CONTRIBUTING VERIFYING 1 ex_pending 1000 1100)
         ((''cer'', ''alice''), ex_participant CONTRIBUTED COMPLETED 1 ex_pending 1000 1100) 9))
   \<and> \<not> isl (coordinateCeremonyParticipant empty_queue_store
         ((''cer'', ''alice''), ex_participant WAITING [] 0 [] 0 0)
         ((''cer'', ''alice''), ex_participant READY [] 1 [] 0 0) 5)
   \<and> \<not> same_up_to_lastUpdated
       (projr (coordinateCeremonyParticipant empty_queue_store
         ((''cer'', ''alice''), ex_participant WAITING [] 0 [] 0 0)
         ((''cer'', ''alice''), ex_participant READY [] 1 [] 0 0) 5))
       (projr (coordinateCeremonyParticipant
         (projr (coordinateCeremonyParticipant empty_queue_store
           ((''cer'', ''alice''), ex_participant WAITING [] 0 [] 0 0)
           ((''cer'', ''alice''), ex_participant READY [] 1 [] 0 0) 5))
         ((''cer'', ''alice''), ex_participant WAITING [] 0 [] 0 0)
         ((''cer'', ''alice''), ex_participant READY [] 1 [] 0 0) 9))"
proof -
  let ?idle0 = "((''cer'', ''alice''), ex_participant CONTRIBUTING DOWNLOADING 1 ex_pending 1000 0)"
  let ?idle1 = "((''cer'', ''alice''), ex_participant CONTRIBUTING COMPUTING 1 ex_pending 1000 0)"
  let ?done0 = "((''cer'', ''alice''), ex_participant CONTRIBUTING VERIFYING 1 ex_pending 1000 1100)"
  let ?done1 = "((''cer'', ''alice''), ex_participant CONTRIBUTED COMPLETED 1 ex_pending 1000 1100)"
  let ?ready0 = "((''cer'', ''alice''), ex_participant WAITING [] 0 [] 0 0)"
  let ?ready1 = "((''cer'', ''alice''), ex_participant READY [] 1 [] 0 0)"
  let ?i = "coordinateCeremonyParticipant busy_store ?idle0 ?idle1 5"
  let ?s = "coordinateCeremonyParticipant solo_store ?done0 ?done1 5"
  let ?b = "coordinateCeremonyParticipant busy_store ?done0 ?done1 5"
  let ?e = "coordinateCeremonyParticipant empty_queue_store ?ready0 ?ready1 5"
  have cer: "fst (fst ?idle0) \<noteq> []" "fst (fst ?done0) \<noteq> []" "fst (fst ?ready0) \<noteq> []"
    and pid: "snd (fst ?idle1) \<noteq> []" "snd (fst ?done1) \<noteq> []" "snd (fst ?ready1) \<noteq> []"
    and dist: "distinct (map fst (circuits busy_store))" "distinct (map fst (circuits solo_store))"
      "distinct (map fst (circuits empty_queue_store))"
    by (simp_all add: ex_defs)
  have kinds: "\<not> singleParticipantEvent (snd ?idle0) (snd ?idle1)"
      "\<not> multiParticipantEvent (snd ?idle0) (snd ?idle1)"
      "multiParticipantEvent (snd ?done0) (snd ?done1)"
      "singleParticipantEvent (snd ?ready0) (snd ?ready1)"
    by (simp_all add: singleParticipantEvent_def multiParticipantEvent_def ex_defs)
  have i: "?i = Inr busy_store"
    and s: "\<not> isl ?s" and b: "\<not> isl ?b" and e: "\<not> isl ?e"
    by (simp_all add: model_defs ex_defs)
  from s b e have s': "?s = Inr (projr ?s)" and b': "?b = Inr (projr ?b)"
    and e': "?e = Inr (projr ?e)"
    by (cases ?s; cases ?b; cases ?e; simp)+
  have gs: "\<exists>r c. getCircuitDocumentByPosition (projr ?s) (fst (fst ?done0))
                    (contributionProgress (snd ?done0)) = Inr (r, c)
                  \<and> currentContributor (waitingQueue c) = []"
    and gb: "\<exists>r c. getCircuitDocumentByPosition (projr ?b) (fst (fst ?done0))
                    (contributionProgress (snd ?done0)) = Inr (r, c)
                  \<and> currentContributor (waitingQueue c) \<noteq> []"
    by (simp_all add: model_defs ex_defs)
  from reinvocation_net_change [OF cer(1) pid(1) dist(1) i, of 9] kinds(1,2)
  have w1: "coordinateCeremonyParticipant busy_store ?idle0 ?idle1 9 = Inr busy_store"
    by blast
  from reinvocation_net_change [OF cer(2) pid(2) dist(2) s', of 9] kinds(3) gs
  obtain st2 where "coordinateCeremonyParticipant (projr ?s) ?done0 ?done1 9 = Inr st2"
    and "same_up_to_lastUpdated (projr ?s) st2"
    by blast
  then have w2: "same_up_to_lastUpdated (projr ?s)
      (projr (coordinateCeremonyParticipant (projr ?s) ?done0 ?done1 9))"
    by simp
  have b2: "\<not> isl (coordinateCeremonyParticipant (projr ?b) ?done0 ?done1 9)"
    by (simp add: model_defs ex_defs)
  then have "coordinateCeremonyParticipant (projr ?b) ?done0 ?done1 9
      = Inr (projr (coordinateCeremonyParticipant (projr ?b) ?done0 ?done1 9))"
    by (cases "coordinateCeremonyParticipant (projr ?b) ?done0 ?done1 9") simp_all
  with reinvocation_net_change [OF cer(2) pid(2) dist(1) b', of 9] kinds(3) gb
  have w3: "\<not> same_up_to_lastUpdated (projr ?b)
      (projr (coordinateCeremonyParticipant (projr ?b) ?done0 ?done1 9))"
    by blast
  from reinvocation_net_change [OF cer(3) pid(3) dist(3) e', of 9] kinds(4)
  obtain st3 where "coordinateCeremonyParticipant (projr ?e) ?ready0 ?ready1 9 = Inr st3"
    and "\<not> same_up_to_lastUpdated (projr ?e) st3"
    by blast
  then have w4: "\<not> same_up_to_lastUpdated (projr ?e)
      (projr (coordinateCeremonyParticipant (projr ?e) ?ready0 ?ready1 9))"
    by simp
  from w1 s w2 b w3 e w4 show ?thesis by blast
qed

text \<open>
  C10. In a single-participant coordination taking the resume branch (the participant is
  the circuit's current contributor, its status is \<open>READY\<close>, the queue is not empty), the
  committed batch leaves the circuit with \<open>currentContributor\<close> empty and \<open>contributors\<close>
  unchanged; when the head invariant held, the participant is still the head of
  \<open>contributors\<close> and no longer the recorded current contributor.
\<close>

theorem resume_clears_current_contributor:
  assumes "currentContributor (waitingQueue c) = snd pref"
    and "status participant = READY"
    and "contributors (waitingQueue c) \<noteq> []"
    and "participants st pref = Some p"
    and "map_of (circuits st) cref = Some c"
  shows "\<exists>st' c'. commit st (coordinate (pref, participant) (cref, c) True cid t) = Inr st'
           \<and> map_of (circuits st') cref = Some c'
           \<and> currentContributor (waitingQueue c') = []
           \<and> contributors (waitingQueue c') = contributors (waitingQueue c)
           \<and> (head_invariant (waitingQueue c) \<and> snd pref \<noteq> [] \<longrightarrow>
                 hd (contributors (waitingQueue c')) = snd pref
                 \<and> currentContributor (waitingQueue c') \<noteq> snd pref)"
proof -
  have batch: "coordinate (pref, participant) (cref, c) True cid t =
     [UpdateParticipant pref None (Some DOWNLOADING) None t,
      UpdateParticipant pref (Some CONTRIBUTING) None (Some t) t,
      UpdateCircuit cref None ((waitingQueue c)\<lparr>currentContributor := []\<rparr>) t]"
    using coordinate_resume_batch [of "(cref, c)" "(pref, participant)"] assms(1-3) by simp
  have hd: "hd (contributors (waitingQueue c)) = snd pref"
    if "head_invariant (waitingQueue c)" and "snd pref \<noteq> []"
    using that assms(1) by (auto simp: head_invariant_def split: list.splits)
  show ?thesis
    unfolding batch commit_single_batch [OF assms(4,5)]
    using map_of_update_circuit [OF assms(5)] hd by auto
qed

theorem resume_clears_current_contributor_witness:
  "\<not> isl (commit resume_store (coordinate
        ((''cer'', ''alice''), ex_participant READY COMPUTING 1 [] 1000 0)
        ((''cer'', ''c1''), ex_circuit (ex_queue [''alice'', ''bob''] ''alice'') 0) True None 5000))
   \<and> map (\<lambda>(r, c). (contributors (waitingQueue c), currentContributor (waitingQueue c)))
       (circuits (projr (commit resume_store (coordinate
        ((''cer'', ''alice''), ex_participant READY COMPUTING 1 [] 1000 0)
        ((''cer'', ''c1''), ex_circuit (ex_queue [''alice'', ''bob''] ''alice'') 0) True None 5000))))
     = [([''alice'', ''bob''], [])]
   \<and> head_invariant (ex_queue [''alice'', ''bob''] ''alice'')"
proof -
  let ?pr = "(''cer'', ''alice'')"
  let ?p = "ex_participant READY COMPUTING 1 [] 1000 0"
  let ?c = "ex_circuit (ex_queue [''alice'', ''bob''] ''alice'') 0"
  let ?r = "commit resume_store (coordinate (?pr, ?p) ((''cer'', ''c1''), ?c) True None 5000)"
  have h1: "currentContributor (waitingQueue ?c) = snd ?pr"
    and h2: "status ?p = READY"
    and h3: "contributors (waitingQueue ?c) \<noteq> []"
    and h4: "participants resume_store ?pr = Some ?p"
    and h5: "map_of (circuits resume_store) (''cer'', ''c1'') = Some ?c"
    and inv: "head_invariant (ex_queue [''alice'', ''bob''] ''alice'')"
    by (simp_all add: ex_defs head_invariant_def)
  from resume_clears_current_contributor [OF h1 h2 h3 h4 h5, of None 5000]
  obtain st' c' where r: "?r = Inr st'" and c': "map_of (circuits st') (''cer'', ''c1'') = Some c'"
    and cur: "currentContributor (waitingQueue c') = []"
    and con: "contributors (waitingQueue c') = contributors (waitingQueue ?c)"
    by blast
  have shape: "map fst (circuits (projr ?r)) = [(''cer'', ''c1'')]"
    by (simp add: model_defs ex_defs)
  from r c' shape have "map snd (circuits (projr ?r)) = [c']"
    by (cases "circuits st'") (auto split: if_splits)
  with cur con have "map (\<lambda>(r, c). (contributors (waitingQueue c), currentContributor (waitingQueue c)))
       (circuits (projr ?r)) = [([''alice'', ''bob''], [])]"
    by (cases "circuits (projr ?r)") (auto simp: ex_defs)
  with r inv show ?thesis by simp
qed

end
